theory Spec2Isabelle
  imports Complex_Main "HOL-Library.Multiset" "HOL-Library.Product_Lexorder" "HOL-Library.Sublist"
begin

section \<open>Data model of the connections view (McuConnections.tsx)\<close>

text \<open>
  JavaScript numbers are modelled as \<^typ>\<open>real\<close> (rounding and NaN are not modelled), a
  valid \<^verbatim>\<open>Date\<close> as its time value in milliseconds (\<^typ>\<open>int\<close>), an optional field as
  an \<^typ>\<open>'a option\<close>, a string as the bytes of its UTF-8 encoding.
\<close>

datatype ArcSide = Top | Bottom

datatype ArcType = Sequel | Crossover | Carryover

record Connection =
  c_type :: ArcType
  c_from :: string
  c_to :: string
  c_side :: "ArcSide option"

record Movie =
  movie_id :: string
  title :: string
  phase :: real
  releaseDate :: int
  releaseDateStr :: string
  posterUrl :: "string option"

text \<open>
  One element of \<^verbatim>\<open>resolvedAll\<close>: the object
  \<^verbatim>\<open>{ ...c, side, a, b, x1: x1p, x2: x2p, leftX, rightX, span }\<close>.
\<close>

record Resolved =
  conn :: Connection
  r_side :: ArcSide
  mov_a :: Movie
  mov_b :: Movie
  arc_x1 :: real
  arc_x2 :: real
  leftX :: real
  rightX :: real
  span :: real

text \<open>One element of the result of \<^verbatim>\<open>assignLanes\<close>: \<^verbatim>\<open>{ ...d, lane }\<close>.\<close>

record Arc =
  arc :: Resolved
  lane :: nat

datatype FilterMode = FilterAll | FilterType ArcType

section \<open>Resolving the relationship list against the catalog\<close>

text \<open>
  \<^verbatim>\<open>const byTitle = new Map(); movies.forEach(m => byTitle.set(m.title, m))\<close>:
  a later movie with the same title replaces an earlier one.
\<close>

definition byTitle :: "Movie list \<Rightarrow> (string \<rightharpoonup> Movie)" where
  "byTitle movies = foldl (\<lambda>mp m. mp(title m \<mapsto> m)) Map.empty movies"

text \<open>
  The body of the \<^verbatim>\<open>.map(c => ...)\<close> of \<^verbatim>\<open>resolvedAll\<close>; \<^verbatim>\<open>null\<close> is \<open>None\<close>.
  The scale \<open>x\<close> maps a release date to a pixel.
\<close>

definition resolve :: "(int \<Rightarrow> real) \<Rightarrow> (string \<rightharpoonup> Movie) \<Rightarrow> Connection \<Rightarrow> Resolved option" where
  "resolve x byT c =
     (case byT (c_from c) of
        None \<Rightarrow> None
      | Some a \<Rightarrow>
         (case byT (c_to c) of
            None \<Rightarrow> None
          | Some b \<Rightarrow>
             (let x1p = x (releaseDate a);
                  x2p = x (releaseDate b);
                  lX = min x1p x2p;
                  rX = max x1p x2p;
                  sd = (case c_side c of None \<Rightarrow> Top | Some s \<Rightarrow> s)
              in Some \<lparr>conn = c, r_side = sd, mov_a = a, mov_b = b, arc_x1 = x1p, arc_x2 = x2p,
                       leftX = lX, rightX = rX, span = rX - lX\<rparr>)))"

text \<open>
  \<^verbatim>\<open>.filter(d => d !== null).sort((p, q) => p.leftX - q.leftX || q.span - p.span)\<close>:
  a stable sort, ascending in \<open>leftX\<close>, ties broken by descending \<open>span\<close>.
\<close>

definition resolvedAll :: "(int \<Rightarrow> real) \<Rightarrow> Movie list \<Rightarrow> Connection list \<Rightarrow> Resolved list" where
  "resolvedAll x movies conns =
     sort_key (\<lambda>d. (leftX d, - span d)) (List.map_filter (resolve x (byTitle movies)) conns)"

text \<open>
  \<^verbatim>\<open>resolvedAll.filter(d => (filterMode === 'all' ? true : d.type === filterMode))\<close>
\<close>

definition passes :: "FilterMode \<Rightarrow> Resolved \<Rightarrow> bool" where
  "passes fm d = (case fm of FilterAll \<Rightarrow> True | FilterType t \<Rightarrow> c_type (conn d) = t)"

definition resolvedVisible :: "FilterMode \<Rightarrow> Resolved list \<Rightarrow> Resolved list" where
  "resolvedVisible fm rs = filter (passes fm) rs"

section \<open>Lane allocation (assignLanes)\<close>

text \<open>
  \<^verbatim>\<open>while (lane < laneRightEnds.length && d.leftX <= laneRightEnds[lane] + 8) lane++\<close>
\<close>

function lane_scan :: "real list \<Rightarrow> real \<Rightarrow> nat \<Rightarrow> nat" where
  "lane_scan laneRightEnds lX lan =
     (if lan < length laneRightEnds \<and> lX \<le> laneRightEnds ! lan + 8
      then lane_scan laneRightEnds lX (lan + 1) else lan)"
  by pat_completeness auto

termination
  by (relation "measure (\<lambda>(ends, lX, lan). length ends - lan)") auto

declare lane_scan.simps [simp del]

text \<open>
  \<^verbatim>\<open>if (lane === laneRightEnds.length) laneRightEnds.push(d.rightX)
  else laneRightEnds[lane] = d.rightX\<close>
\<close>

definition lane_update :: "real list \<Rightarrow> nat \<Rightarrow> real \<Rightarrow> real list" where
  "lane_update laneRightEnds lan rX =
     (if lan = length laneRightEnds then laneRightEnds @ [rX] else laneRightEnds[lan := rX])"

text \<open>The \<^verbatim>\<open>list.map\<close> of \<^verbatim>\<open>assignLanes\<close>, threading the mutable array \<^verbatim>\<open>laneRightEnds\<close>.\<close>

fun assignLanes_from :: "real list \<Rightarrow> Resolved list \<Rightarrow> Arc list" where
  "assignLanes_from laneRightEnds [] = []"
| "assignLanes_from laneRightEnds (d # ds) =
     (let lan = lane_scan laneRightEnds (leftX d) 0
      in \<lparr>arc = d, lane = lan\<rparr> # assignLanes_from (lane_update laneRightEnds lan (rightX d)) ds)"

definition assignLanes :: "Resolved list \<Rightarrow> Arc list" where
  "assignLanes list = assignLanes_from [] list"

text \<open>\<^verbatim>\<open>resolvedVisible.filter(d => d.side === 'top')\<close>, and the same for \<^verbatim>\<open>'bottom'\<close>.\<close>

definition onSide :: "ArcSide \<Rightarrow> Resolved list \<Rightarrow> Resolved list" where
  "onSide s visible = filter (\<lambda>d. r_side d = s) visible"

definition arcsOnSide :: "ArcSide \<Rightarrow> Resolved list \<Rightarrow> Arc list" where
  "arcsOnSide s visible = assignLanes (onSide s visible)"

text \<open>\<^verbatim>\<open>const arcsWithLane = [...arcsTop, ...arcsBottom]\<close>\<close>

definition arcsWithLane :: "FilterMode \<Rightarrow> (int \<Rightarrow> real) \<Rightarrow> Movie list \<Rightarrow> Connection list \<Rightarrow> Arc list" where
  "arcsWithLane fm x movies conns =
     (let visible = resolvedVisible fm (resolvedAll x movies conns)
      in arcsOnSide Top visible @ arcsOnSide Bottom visible)"

text \<open>The relationship tuples of the rendered arcs (\<^verbatim>\<open>path.arc\<close> is bound to \<^verbatim>\<open>arcsWithLane\<close>).\<close>

definition rendered_connections ::
  "FilterMode \<Rightarrow> (int \<Rightarrow> real) \<Rightarrow> Movie list \<Rightarrow> Connection list \<Rightarrow> Connection list" where
  "rendered_connections fm x movies conns = map (\<lambda>a. conn (arc a)) (arcsWithLane fm x movies conns)"

text \<open>
  Two pixel spans overlap, the 8px gap counted, unless one of them, widened by 8, ends
  strictly left of the start of the other.
\<close>

definition gap_overlap :: "Resolved \<Rightarrow> Resolved \<Rightarrow> bool" where
  "gap_overlap p q \<longleftrightarrow> \<not> (rightX p + 8 < leftX q \<or> rightX q + 8 < leftX p)"

text \<open>The code-embedded relationship list \<^verbatim>\<open>CONNECTIONS\<close>.\<close>

definition CONNECTIONS :: "Connection list" where
  "CONNECTIONS = [
     \<lparr>c_type = Sequel, c_from = ''Iron Man'', c_to = ''Iron Man 2'', c_side = Some Top\<rparr>,
     \<lparr>c_type = Sequel, c_from = ''Iron Man 2'', c_to = ''Iron Man 3'', c_side = Some Bottom\<rparr>,
     \<lparr>c_type = Crossover, c_from = ''Iron Man 2'', c_to = ''The Avengers'', c_side = Some Top\<rparr>,
     \<lparr>c_type = Sequel, c_from = ''Thor'', c_to = ''Thor: The Dark World'', c_side = Some Bottom\<rparr>,
     \<lparr>c_type = Crossover, c_from = ''Thor'', c_to = ''The Avengers'', c_side = Some Bottom\<rparr>,
     \<lparr>c_type = Sequel, c_from = ''Captain America: The First Avenger'', c_to = ''Captain America: The Winter Soldier'', c_side = Some Top\<rparr>,
     \<lparr>c_type = Crossover, c_from = ''Captain America: The First Avenger'', c_to = ''The Avengers'', c_side = Some Top\<rparr>,
     \<lparr>c_type = Sequel, c_from = ''The Avengers'', c_to = ''Avengers: Age of Ultron'', c_side = Some Top\<rparr>,
     \<lparr>c_type = Carryover, c_from = ''The Avengers'', c_to = ''Thor: The Dark World'', c_side = Some Bottom\<rparr>,
     \<lparr>c_type = Carryover, c_from = ''The Avengers'', c_to = ''Captain America: The Winter Soldier'', c_side = Some Top\<rparr>,
     \<lparr>c_type = Crossover, c_from = ''Iron Man 3'', c_to = ''Avengers: Age of Ultron'', c_side = Some Top\<rparr>,
     \<lparr>c_type = Sequel, c_from = ''Thor: The Dark World'', c_to = ''Thor: Ragnarok'', c_side = Some Bottom\<rparr>,
     \<lparr>c_type = Crossover, c_from = ''Thor: The Dark World'', c_to = ''Avengers: Age of Ultron'', c_side = Some Top\<rparr>,
     \<lparr>c_type = Sequel, c_from = ''Captain America: The Winter Soldier'', c_to = ''Captain America: Civil War'', c_side = Some Bottom\<rparr>,
     \<lparr>c_type = Crossover, c_from = ''Captain America: The Winter Soldier'', c_to = ''Avengers: Age of Ultron'', c_side = Some Top\<rparr>,
     \<lparr>c_type = Carryover, c_from = ''Captain America: The Winter Soldier'', c_to = ''Avengers: Age of Ultron'', c_side = Some Bottom\<rparr>,
     \<lparr>c_type = Sequel, c_from = ''Guardians of the Galaxy'', c_to = ''Guardians of the Galaxy Vol. 2'', c_side = Some Top\<rparr>,
     \<lparr>c_type = Sequel, c_from = ''Avengers: Age of Ultron'', c_to = ''Avengers: Infinity War'', c_side = Some Top\<rparr>,
     \<lparr>c_type = Carryover, c_from = ''Avengers: Age of Ultron'', c_to = ''Captain America: Civil War'', c_side = Some Top\<rparr>,
     \<lparr>c_type = Sequel, c_from = ''Ant-Man'', c_to = ''Ant-Man and the Wasp'', c_side = Some Bottom\<rparr>,
     \<lparr>c_type = Crossover, c_from = ''Ant-Man'', c_to = ''Captain America: Civil War'', c_side = Some Top\<rparr>,
     \<lparr>c_type = Crossover, c_from = ''Captain America: Civil War'', c_to = ''Avengers: Infinity War'', c_side = Some Top\<rparr>,
     \<lparr>c_type = Carryover, c_from = ''Captain America: Civil War'', c_to = ''Black Widow'', c_side = Some Top\<rparr>,
     \<lparr>c_type = Sequel, c_from = ''Captain America: Civil War'', c_to = ''Captain America: Brave New World'', c_side = Some Bottom\<rparr>,
     \<lparr>c_type = Carryover, c_from = ''Captain America: Civil War'', c_to = ''Spider-Man: Homecoming'', c_side = Some Bottom\<rparr>,
     \<lparr>c_type = Carryover, c_from = ''Captain America: Civil War'', c_to = ''Black Panther'', c_side = Some Top\<rparr>,
     \<lparr>c_type = Sequel, c_from = ''Doctor Strange'', c_to = ''Doctor Strange in the Multiverse of Madness'', c_side = Some Top\<rparr>,
     \<lparr>c_type = Crossover, c_from = ''Doctor Strange'', c_to = ''Avengers: Infinity War'', c_side = Some Bottom\<rparr>,
     \<lparr>c_type = Sequel, c_from = ''Guardians of the Galaxy Vol. 2'', c_to = ''Guardians of the Galaxy Vol. 3'', c_side = Some Top\<rparr>,
     \<lparr>c_type = Crossover, c_from = ''Guardians of the Galaxy Vol. 2'', c_to = ''Avengers: Infinity War'', c_side = Some Top\<rparr>,
     \<lparr>c_type = Sequel, c_from = ''Spider-Man: Homecoming'', c_to = ''Spider-Man: Far From Home'', c_side = Some Top\<rparr>,
     \<lparr>c_type = Crossover, c_from = ''Spider-Man: Homecoming'', c_to = ''Avengers: Infinity War'', c_side = Some Bottom\<rparr>,
     \<lparr>c_type = Sequel, c_from = ''Thor: Ragnarok'', c_to = ''Thor: Love and Thunder'', c_side = Some Top\<rparr>,
     \<lparr>c_type = Crossover, c_from = ''Thor: Ragnarok'', c_to = ''Avengers: Infinity War'', c_side = Some Bottom\<rparr>,
     \<lparr>c_type = Carryover, c_from = ''Thor: Ragnarok'', c_to = ''Avengers: Infinity War'', c_side = Some Top\<rparr>,
     \<lparr>c_type = Sequel, c_from = ''Black Panther'', c_to = ''Black Panther: Wakanda Forever'', c_side = Some Top\<rparr>,
     \<lparr>c_type = Crossover, c_from = ''Black Panther'', c_to = ''Avengers: Infinity War'', c_side = Some Top\<rparr>,
     \<lparr>c_type = Sequel, c_from = ''Avengers: Infinity War'', c_to = ''Avengers: Endgame'', c_side = Some Top\<rparr>,
     \<lparr>c_type = Sequel, c_from = ''Ant-Man and the Wasp'', c_to = ''Ant-Man and the Wasp: Quantumania'', c_side = Some Bottom\<rparr>,
     \<lparr>c_type = Sequel, c_from = ''Captain Marvel'', c_to = ''The Marvels'', c_side = Some Top\<rparr>,
     \<lparr>c_type = Crossover, c_from = ''Captain Marvel'', c_to = ''Avengers: Endgame'', c_side = Some Bottom\<rparr>,
     \<lparr>c_type = Carryover, c_from = ''Avengers: Endgame'', c_to = ''Spider-Man: Far From Home'', c_side = Some Top\<rparr>,
     \<lparr>c_type = Sequel, c_from = ''Spider-Man: Far From Home'', c_to = ''Spider-Man: No Way Home'', c_side = Some Bottom\<rparr>,
     \<lparr>c_type = Carryover, c_from = ''Spider-Man: No Way Home'', c_to = ''Doctor Strange in the Multiverse of Madness'', c_side = Some Top\<rparr>]"

subsection \<open>First fit, in the words of the specification\<close>

text \<open>
  The specification: scan lanes from 0 upward; assign the interval to the first lane whose
  right-edge \<open>fits\<close> the interval's start; if none exists, open a new lane; update that
  lane's right-edge to the interval's end. The test \<open>fits\<close> is a parameter: the
  specification's wording is \<open>fits_spec\<close> (right-edge \<open>\<le>\<close> start \<open>-\<close> gap), the strict
  variant is \<open>fits_strict\<close>.
\<close>

definition fits_spec :: "real \<Rightarrow> real \<Rightarrow> bool" where
  "fits_spec rightEdge start \<longleftrightarrow> rightEdge \<le> start - 8"

definition fits_strict :: "real \<Rightarrow> real \<Rightarrow> bool" where
  "fits_strict rightEdge start \<longleftrightarrow> rightEdge < start - 8"

definition first_fit_lane :: "(real \<Rightarrow> real \<Rightarrow> bool) \<Rightarrow> real list \<Rightarrow> real \<Rightarrow> nat" where
  "first_fit_lane fits edges start = length (takeWhile (\<lambda>e. \<not> fits e start) edges)"

fun first_fit :: "(real \<Rightarrow> real \<Rightarrow> bool) \<Rightarrow> real list \<Rightarrow> Resolved list \<Rightarrow> nat list" where
  "first_fit fits edges [] = []"
| "first_fit fits edges (d # ds) =
     (let l = first_fit_lane fits edges (leftX d);
          edges' = (if l < length edges then edges[l := rightX d] else edges @ [rightX d])
      in l # first_fit fits edges' ds)"

text \<open>Ascending start position, ties broken by descending span.\<close>

definition start_then_span :: "Resolved \<Rightarrow> Resolved \<Rightarrow> bool" where
  "start_then_span p q \<longleftrightarrow> leftX p < leftX q \<or> (leftX p = leftX q \<and> span q \<le> span p)"

section \<open>Label overlap helpers (resolveBandVerticalLayout)\<close>

definition clamp :: "real \<Rightarrow> real \<Rightarrow> real \<Rightarrow> real" where
  "clamp v lo hi = max lo (min hi v)"

record DOMRect =
  r_left :: real
  r_right :: real
  r_top :: real
  r_bottom :: real
  r_width :: real
  r_height :: real

text \<open>
  A label card \<^verbatim>\<open>div.mcu-label\<close>: its text, the inline styles \<^verbatim>\<open>left\<close> and \<^verbatim>\<open>top\<close>
  (in px) and its rendered size.
\<close>

record LabelEl =
  el_text :: string
  style_left :: real
  style_top :: real
  el_width :: real
  el_height :: real

record Node =
  el :: LabelEl
  cx :: real

datatype Direction = Up | Down

text \<open>
  \<^verbatim>\<open>el.getBoundingClientRect()\<close> is the browser's: the card is absolutely positioned in
  the container, whose viewport origin is \<open>origin\<close>, and shifted left by half its width
  (\<^verbatim>\<open>transform: translate(-50%, 0)\<close>).
\<close>

definition getBoundingClientRect :: "real \<times> real \<Rightarrow> LabelEl \<Rightarrow> DOMRect" where
  "getBoundingClientRect origin e =
     \<lparr>r_left = fst origin + style_left e - el_width e / 2,
      r_right = fst origin + style_left e - el_width e / 2 + el_width e,
      r_top = snd origin + style_top e,
      r_bottom = snd origin + style_top e + el_height e,
      r_width = el_width e,
      r_height = el_height e\<rparr>"

definition overlaps :: "DOMRect \<Rightarrow> DOMRect \<Rightarrow> real \<Rightarrow> bool" where
  "overlaps a b pad \<longleftrightarrow>
     \<not> (r_right a + pad < r_left b \<or> r_left a > r_right b + pad \<or>
        r_bottom a + pad < r_top b \<or> r_top a > r_bottom b)"

text \<open>
  The body of \<^verbatim>\<open>if (overlaps(aRect, bRect, gap)) { ... }\<close>: the new \<^verbatim>\<open>style.top\<close> of \<open>a\<close>.
\<close>

definition pushed_top :: "real \<times> real \<Rightarrow> Direction \<Rightarrow> real \<Rightarrow> real \<Rightarrow> Node \<Rightarrow> Node \<Rightarrow> real" where
  "pushed_top origin direction containerH gap a b =
     (let aRect = getBoundingClientRect origin (el a);
          bRect = getBoundingClientRect origin (el b);
          currentTop = style_top (el a);
          pushFactor = 0.6;
          pushBy = (case direction of Up \<Rightarrow> - 1 | Down \<Rightarrow> 1) * (r_height bRect + gap) * pushFactor;
          nextTop = currentTop + pushBy;
          minTop = 6;
          maxTop = containerH - r_height aRect - 6
      in clamp nextTop minTop maxTop)"

text \<open>
  \<^verbatim>\<open>while (moved && guard++ < 60)\<close>, entered with \<^verbatim>\<open>moved = true\<close>: one round looks for the
  first finalized box \<open>b\<close> (\<^verbatim>\<open>for (j = 0; j < i; j++) ... break\<close>) that overlaps \<open>a\<close>, and
  pushes \<open>a\<close>. The result is the box and the number of rounds run.
\<close>

function push_loop ::
  "real \<times> real \<Rightarrow> Direction \<Rightarrow> real \<Rightarrow> real \<Rightarrow> Node list \<Rightarrow> nat \<Rightarrow> Node \<Rightarrow> Node \<times> nat" where
  "push_loop origin direction containerH gap finalized guard a =
     (if guard < 60 then
        (case find (\<lambda>b. overlaps (getBoundingClientRect origin (el a))
                                 (getBoundingClientRect origin (el b)) gap) finalized of
           None \<Rightarrow> (a, guard + 1)
         | Some b \<Rightarrow>
             push_loop origin direction containerH gap finalized (guard + 1)
               (a\<lparr>el := (el a)\<lparr>style_top := pushed_top origin direction containerH gap a b\<rparr>\<rparr>))
      else (a, guard))"
  by pat_completeness auto

termination
  by (relation "measure (\<lambda>(origin, direction, containerH, gap, finalized, guard, a). 60 - guard)") auto

declare push_loop.simps [simp del]

text \<open>\<^verbatim>\<open>for (let i = 0; i < nodes.length; i++)\<close>: the boxes before \<open>i\<close> are final.\<close>

fun layout_loop ::
  "real \<times> real \<Rightarrow> Direction \<Rightarrow> real \<Rightarrow> real \<Rightarrow> Node list \<Rightarrow> Node list \<Rightarrow> (Node \<times> nat) list" where
  "layout_loop origin direction containerH gap finalized [] = []"
| "layout_loop origin direction containerH gap finalized (a # rest) =
     (let r = push_loop origin direction containerH gap finalized 0 a
      in r # layout_loop origin direction containerH gap (finalized @ [fst r]) rest)"

text \<open>
  The result lists the boxes in the sorted order of \<^verbatim>\<open>nodes\<close>, each with the number of
  rounds its push loop ran.
\<close>

definition resolveBandVerticalLayout ::
  "real \<times> real \<Rightarrow> Node list \<Rightarrow> real \<Rightarrow> Direction \<Rightarrow> real \<Rightarrow> real \<Rightarrow> (Node \<times> nat) list" where
  "resolveBandVerticalLayout origin nodes baseTop direction containerH gap =
     (let sorted_nodes = sort_key cx nodes;
          based = map (\<lambda>n. n\<lparr>el := (el n)\<lparr>style_top := baseTop\<rparr>\<rparr>) sorted_nodes
      in layout_loop origin direction containerH gap [] based)"

text \<open>The band of a box: \<^verbatim>\<open>minTop = 6\<close>, \<^verbatim>\<open>maxTop = containerH - aRect.height - 6\<close>.\<close>

definition in_band :: "real \<Rightarrow> Node \<Rightarrow> bool" where
  "in_band containerH n \<longleftrightarrow>
     6 \<le> style_top (el n) \<and> style_top (el n) \<le> containerH - el_height (el n) - 6"

text \<open>
  What \<^verbatim>\<open>clamp(nextTop, minTop, maxTop)\<close> leaves: a top within the band, or the lower bound
  6 when the band is empty (\<^verbatim>\<open>maxTop < minTop\<close>).
\<close>

definition clamped_top :: "real \<Rightarrow> Node \<Rightarrow> bool" where
  "clamped_top containerH n \<longleftrightarrow> in_band containerH n \<or> style_top (el n) = 6"

section \<open>Hover highlight (applyHighlight, clearHighlight)\<close>

text \<open>
  What the render effect closes over: the scale, the catalog, the relationship list, the
  filter mode, \<^verbatim>\<open>size.height\<close>, the container's client rectangle (origin, width, height)
  and the browser's text layout (the rendered width and height of a card with a given
  text).
\<close>

record Scene =
  sc_x :: "int \<Rightarrow> real"
  sc_movies :: "Movie list"
  sc_conns :: "Connection list"
  sc_filterMode :: FilterMode
  sc_height :: real
  sc_box_origin :: "real \<times> real"
  sc_box_width :: real
  sc_box_height :: real
  sc_measure :: "string \<Rightarrow> real \<times> real"

definition sc_arcs :: "Scene \<Rightarrow> Arc list" where
  "sc_arcs sc = arcsWithLane (sc_filterMode sc) (sc_x sc) (sc_movies sc) (sc_conns sc)"

text \<open>\<^verbatim>\<open>const yMid = Math.round(height / 2)\<close>\<close>

definition yMid :: "Scene \<Rightarrow> real" where
  "yMid sc = real_of_int \<lfloor>sc_height sc / 2 + 1 / 2\<rfloor>"

text \<open>\<^verbatim>\<open>Set.prototype.add\<close>: a JavaScript \<^verbatim>\<open>Set\<close> iterates in insertion order.\<close>

definition set_add :: "string list \<Rightarrow> string \<Rightarrow> string list" where
  "set_add s t = (if t \<in> set s then s else s @ [t])"

text \<open>
  \<^verbatim>\<open>const outgoing = arcsWithLane.filter(d => d.from === hoverTitle)
  const highlightTitles = new Set([hoverTitle])
  for (const a of outgoing) highlightTitles.add(a.to)\<close>
\<close>

definition highlightTitles :: "Arc list \<Rightarrow> string \<Rightarrow> string list" where
  "highlightTitles arcs hoverTitle =
     (let outgoing = filter (\<lambda>d. c_from (conn (arc d)) = hoverTitle) arcs
      in foldl (\<lambda>s a. set_add s (c_to (conn (arc a)))) [hoverTitle] outgoing)"

record Card =
  card_m :: Movie
  card_top :: bool
  isAnchor :: bool
  card_i :: nat

definition cardData :: "Scene \<Rightarrow> string list \<Rightarrow> string \<Rightarrow> Card list" where
  "cardData sc titles anchorTitle =
     (let items = sort_key (\<lambda>m. sc_x sc (releaseDate m))
                    (List.map_filter (byTitle (sc_movies sc)) titles)
      in map (\<lambda>(i, m). \<lparr>card_m = m,
                          card_top = (if title m = anchorTitle then True else i mod 2 = 0),
                          isAnchor = (title m = anchorTitle),
                          card_i = i\<rparr>)
           (enumerate 0 items))"

text \<open>
  Pass 1 of \<^verbatim>\<open>renderMultiTooltips\<close>: the card of a datum, with its text, \<^verbatim>\<open>left\<close> and base
  \<^verbatim>\<open>top\<close>. The keyed data join leaves exactly one \<^verbatim>\<open>div.mcu-label\<close> per datum.
\<close>

definition card_label :: "Scene \<Rightarrow> Card \<Rightarrow> LabelEl" where
  "card_label sc d =
     (let cardW = 260;
          topBase = yMid sc - 80;
          bottomBase = yMid sc + 18;
          cxp = sc_x sc (releaseDate (card_m d));
          left = clamp cxp (10 + cardW / 2) (sc_box_width sc - 10 - cardW / 2)
      in \<lparr>el_text = title (card_m d),
          style_left = left,
          style_top = (if card_top d then topBase else bottomBase),
          el_width = fst (sc_measure sc (title (card_m d))),
          el_height = snd (sc_measure sc (title (card_m d)))\<rparr>)"

text \<open>Pass 2: \<^verbatim>\<open>topNodes\<close> (\<open>band = True\<close>) and \<^verbatim>\<open>bottomNodes\<close> (\<open>band = False\<close>).\<close>

definition band_nodes :: "Scene \<Rightarrow> bool \<Rightarrow> Card list \<Rightarrow> Node list" where
  "band_nodes sc band cards =
     map (\<lambda>d. \<lparr>el = card_label sc d, cx = sc_x sc (releaseDate (card_m d))\<rparr>)
       (filter (\<lambda>d. card_top d = band) cards)"

text \<open>
  The cards in the overlay after \<^verbatim>\<open>renderMultiTooltips\<close>, those of the top band first.
\<close>

definition renderMultiTooltips :: "Scene \<Rightarrow> string list \<Rightarrow> string \<Rightarrow> LabelEl list" where
  "renderMultiTooltips sc titles anchorTitle =
     (let cards = cardData sc titles anchorTitle;
          topBase = yMid sc - 80;
          bottomBase = yMid sc + 18;
          topNodes = band_nodes sc True cards;
          bottomNodes = band_nodes sc False cards
      in map (\<lambda>r. el (fst r))
           (resolveBandVerticalLayout (sc_box_origin sc) topNodes topBase Up (sc_box_height sc) 4) @
         map (\<lambda>r. el (fst r))
           (resolveBandVerticalLayout (sc_box_origin sc) bottomNodes bottomBase Down (sc_box_height sc) 4))"

text \<open>
  The render surface: the label cards of the overlay, the movie dots and the arc paths
  with the attributes the highlight changes.
\<close>

record Dot =
  dot_title :: string
  dot_r :: real
  dot_opacity :: real
  dot_stroke_width :: real

record Path =
  path_arc :: Arc
  path_opacity :: real
  path_stroke_width :: real

record Surface =
  labels :: "LabelEl list"
  dots :: "Dot list"
  paths :: "Path list"

definition baseArcOpacity :: "Arc \<Rightarrow> real" where
  "baseArcOpacity d =
     (case c_type (conn (arc d)) of Sequel \<Rightarrow> 0.9 | Crossover \<Rightarrow> 0.85 | Carryover \<Rightarrow> 0.8)"

definition baseArcStrokeW :: "Arc \<Rightarrow> real" where
  "baseArcStrokeW d =
     (case c_type (conn (arc d)) of Sequel \<Rightarrow> 2.2 | Crossover \<Rightarrow> 2.0 | Carryover \<Rightarrow> 2.0)"

definition dotR :: real where
  "dotR = 5"

definition dotStrokeW :: real where
  "dotStrokeW = 1.5"

text \<open>The surface as first drawn: no label, every dot and arc at its base attributes.\<close>

definition initial_surface :: "Scene \<Rightarrow> Surface" where
  "initial_surface sc =
     \<lparr>labels = [],
      dots = map (\<lambda>m. \<lparr>dot_title = title m, dot_r = dotR, dot_opacity = 1,
                         dot_stroke_width = dotStrokeW\<rparr>) (sc_movies sc),
      paths = map (\<lambda>d. \<lparr>path_arc = d, path_opacity = baseArcOpacity d,
                          path_stroke_width = baseArcStrokeW d\<rparr>) (sc_arcs sc)\<rparr>"

definition clearMultiTooltips :: "Surface \<Rightarrow> Surface" where
  "clearMultiTooltips s = s\<lparr>labels := []\<rparr>"

definition clearHighlight :: "Surface \<Rightarrow> Surface" where
  "clearHighlight s =
     (clearMultiTooltips s)
       \<lparr>dots := map (\<lambda>d. d\<lparr>dot_r := dotR, dot_opacity := 1, dot_stroke_width := dotStrokeW\<rparr>) (dots s),
        paths := map (\<lambda>p. p\<lparr>path_opacity := baseArcOpacity (path_arc p),
                              path_stroke_width := baseArcStrokeW (path_arc p)\<rparr>) (paths s)\<rparr>"

definition applyHighlight :: "Scene \<Rightarrow> string \<Rightarrow> Surface \<Rightarrow> Surface" where
  "applyHighlight sc hoverTitle s =
     (let hl = highlightTitles (sc_arcs sc) hoverTitle
      in s\<lparr>labels := renderMultiTooltips sc hl hoverTitle,
           dots := map (\<lambda>d.
               if dot_title d \<in> set hl
               then d\<lparr>dot_opacity := 1,
                      dot_r := (if dot_title d = hoverTitle then dotR + 3 else dotR + 1),
                      dot_stroke_width :=
                        (if dot_title d = hoverTitle then dotStrokeW + 1.2 else dotStrokeW)\<rparr>
               else d\<lparr>dot_opacity := 0.18, dot_r := dotR, dot_stroke_width := dotStrokeW\<rparr>) (dots s),
           paths := map (\<lambda>p.
               if c_from (conn (arc (path_arc p))) = hoverTitle
               then p\<lparr>path_opacity := min 1 (baseArcOpacity (path_arc p) + 0.15),
                      path_stroke_width := baseArcStrokeW (path_arc p) + 1.2\<rparr>
               else p\<lparr>path_opacity := 0.1, path_stroke_width := baseArcStrokeW (path_arc p)\<rparr>)
             (paths s)\<rparr>)"

text \<open>
  The titles joined to \<open>t\<close> by a tuple of the relationship list, in either direction.
\<close>

definition connected_titles :: "Connection list \<Rightarrow> string \<Rightarrow> string list" where
  "connected_titles conns t =
     map c_to (filter (\<lambda>c. c_from c = t) conns) @ map c_from (filter (\<lambda>c. c_to c = t) conns)"

section \<open>Loading the catalog (load of McuConnections.tsx)\<close>

text \<open>
  A row of \<^verbatim>\<open>d3.csv\<close>: every column is a string, or \<^verbatim>\<open>undefined\<close> (\<open>None\<close>) when the file
  has no such column.
\<close>

record CsvRow =
  row_id :: "string option"
  row_title :: "string option"
  row_phase :: "string option"
  row_release_date :: "string option"
  row_poster_path :: "string option"

text \<open>\<^verbatim>\<open>String(v)\<close> of a string or \<^verbatim>\<open>undefined\<close>.\<close>

definition js_String :: "string option \<Rightarrow> string" where
  "js_String v = (case v of None \<Rightarrow> ''undefined'' | Some s \<Rightarrow> s)"

text \<open>
  A JavaScript string is modelled by the bytes of its UTF-8 encoding. The code points that
  \<^verbatim>\<open>String.prototype.trim\<close> strips, as byte sequences: the white space U+0009, U+000B,
  U+000C, U+0020, U+00A0, U+1680, U+2000 to U+200A, U+202F, U+205F, U+3000 and U+FEFF, and
  the line terminators U+000A, U+000D, U+2028 and U+2029.
\<close>

definition white_space :: "string list" where
  "white_space =
     [[CHR 0x09], [CHR 0x0A], [CHR 0x0B], [CHR 0x0C], [CHR 0x0D], [CHR 0x20],
      [CHR 0xC2, CHR 0xA0], [CHR 0xE1, CHR 0x9A, CHR 0x80], [CHR 0xE2, CHR 0x80, CHR 0x80],
      [CHR 0xE2, CHR 0x80, CHR 0x81], [CHR 0xE2, CHR 0x80, CHR 0x82],
      [CHR 0xE2, CHR 0x80, CHR 0x83], [CHR 0xE2, CHR 0x80, CHR 0x84],
      [CHR 0xE2, CHR 0x80, CHR 0x85], [CHR 0xE2, CHR 0x80, CHR 0x86],
      [CHR 0xE2, CHR 0x80, CHR 0x87], [CHR 0xE2, CHR 0x80, CHR 0x88],
      [CHR 0xE2, CHR 0x80, CHR 0x89], [CHR 0xE2, CHR 0x80, CHR 0x8A],
      [CHR 0xE2, CHR 0x80, CHR 0xA8], [CHR 0xE2, CHR 0x80, CHR 0xA9],
      [CHR 0xE2, CHR 0x80, CHR 0xAF], [CHR 0xE2, CHR 0x81, CHR 0x9F],
      [CHR 0xE3, CHR 0x80, CHR 0x80], [CHR 0xEF, CHR 0xBB, CHR 0xBF]]"

text \<open>Removing every leading occurrence of one of the sequences \<open>ws\<close>.\<close>

function strip_start :: "string list \<Rightarrow> string \<Rightarrow> string" where
  "strip_start ws s =
     (case find (\<lambda>w. w \<noteq> [] \<and> prefix w s) ws of
        None \<Rightarrow> s
      | Some w \<Rightarrow> strip_start ws (drop (length w) s))"
  by pat_completeness auto

termination
  by (relation "measure (\<lambda>(ws, s). length s)") (auto simp: find_Some_iff prefix_def)

declare strip_start.simps [simp del]

text \<open>\<^verbatim>\<open>String.prototype.trim\<close>: white space is removed at the start and at the end.\<close>

definition trim :: "string \<Rightarrow> string" where
  "trim s = rev (strip_start (map rev white_space) (rev (strip_start white_space s)))"

text \<open>
  The JavaScript built-ins \<^verbatim>\<open>Number(string)\<close> and \<^verbatim>\<open>new Date(string)\<close> are parameters:
  \<open>toNumber s\<close> is \<open>None\<close> when \<^verbatim>\<open>Number(s)\<close> is \<^verbatim>\<open>NaN\<close> or infinite (both fail every
  comparison below), \<open>dateParse s\<close> is \<open>None\<close> when \<^verbatim>\<open>new Date(s)\<close> is an invalid date
  (\<^verbatim>\<open>getTime()\<close> is \<^verbatim>\<open>NaN\<close>) and the time value otherwise.
\<close>

definition parsePhase :: "(string \<Rightarrow> real option) \<Rightarrow> string option \<Rightarrow> real option" where
  "parsePhase toNumber raw =
     (case toNumber (trim (js_String raw)) of
        None \<Rightarrow> None
      | Some n \<Rightarrow> if n \<ge> 1 \<and> n \<le> 6 then Some n else None)"

text \<open>\<^verbatim>\<open>new Date(r.release_date)\<close>; \<^verbatim>\<open>new Date(undefined)\<close> is an invalid date.\<close>

definition new_Date :: "(string \<Rightarrow> int option) \<Rightarrow> string option \<Rightarrow> int option" where
  "new_Date dateParse v = (case v of None \<Rightarrow> None | Some s \<Rightarrow> dateParse s)"

definition TMDB_POSTER_BASE :: string where
  "TMDB_POSTER_BASE = ''https://image.tmdb.org/t/p/w185''"

text \<open>The body of \<^verbatim>\<open>rows.map(r => ...)\<close>; \<^verbatim>\<open>null\<close> is \<open>None\<close>.\<close>

definition parse_row ::
  "(string \<Rightarrow> real option) \<Rightarrow> (string \<Rightarrow> int option) \<Rightarrow> CsvRow \<Rightarrow> Movie option" where
  "parse_row toNumber dateParse r =
     (case parsePhase toNumber (row_phase r) of
        None \<Rightarrow> None
      | Some ph \<Rightarrow>
         (case new_Date dateParse (row_release_date r) of
            None \<Rightarrow> None
          | Some date \<Rightarrow>
             (let ttl = trim (case row_title r of None \<Rightarrow> [] | Some s \<Rightarrow> s)
              in if ttl = [] then None
                 else if ttl = ''The Incredible Hulk'' then None
                 else
                   (let posterPath = trim (case row_poster_path r of None \<Rightarrow> [] | Some s \<Rightarrow> s);
                        poster = (if posterPath \<noteq> [] then Some (TMDB_POSTER_BASE @ posterPath) else None)
                    in Some \<lparr>movie_id = js_String (row_id r), title = ttl, phase = ph,
                             releaseDate = date, releaseDateStr = js_String (row_release_date r),
                             posterUrl = poster\<rparr>))))"

text \<open>
  \<^verbatim>\<open>.filter(x => x !== null).sort((a, b) => a.releaseDate.getTime() - b.releaseDate.getTime())\<close>
\<close>

definition parsed :: "(string \<Rightarrow> real option) \<Rightarrow> (string \<Rightarrow> int option) \<Rightarrow> CsvRow list \<Rightarrow> Movie list" where
  "parsed toNumber dateParse rows = sort_key releaseDate (List.map_filter (parse_row toNumber dateParse) rows)"


section \<open>The temporal scale\<close>



section \<open>The review browser (McuMoviesReviews)\<close>

text \<open>A JavaScript number that may be \<^verbatim>\<open>NaN\<close> is a \<^typ>\<open>real option\<close>, \<open>None\<close> for \<^verbatim>\<open>NaN\<close>.\<close>

record ReviewsMovie =
  rm_id :: "string option"
  rm_title :: "string option"
  rm_releaseYear :: "real option"
  rm_imdbAverageRating :: "real option"
  rm_numberVotes :: "real option"

record Review =
  rv_movie :: "string option"
  rv_imdbId :: "string option"
  rv_author :: "string option"
  rv_date :: "string option"
  rv_reviewRating :: "real option"
  rv_reviewTitle :: "string option"
  rv_review :: "string option"
  rv_likes :: "string option"
  rv_dislikes :: "string option"

text \<open>\<^verbatim>\<open>a == b\<close> on numbers: \<^verbatim>\<open>NaN\<close> equals nothing.\<close>

definition num_eq :: "real option \<Rightarrow> real option \<Rightarrow> bool" where
  "num_eq a b = (case a of None \<Rightarrow> False | Some u \<Rightarrow> (case b of None \<Rightarrow> False | Some v \<Rightarrow> u = v))"

text \<open>
  The effect that recomputes \<^verbatim>\<open>filteredReviews\<close>; \<^verbatim>\<open>selectedReviewsYear == null\<close> is the
  outer \<open>None\<close>. The loop \<^verbatim>\<open>for (const title of movieTitles)\<close> is the \<open>foldl\<close>.
\<close>

definition filteredReviews ::
  "ReviewsMovie list \<Rightarrow> Review list \<Rightarrow> real option option \<Rightarrow> Review list" where
  "filteredReviews movies reviews selectedReviewsYear =
     (case selectedReviewsYear of
        None \<Rightarrow> []
      | Some y \<Rightarrow>
         (let moviesFromYear = filter (\<lambda>movie. num_eq (rm_releaseYear movie) y) movies;
              movieTitles = map rm_title moviesFromYear
          in foldl (\<lambda>allFilteredReviews ttl.
                 (let movieFilteredReviews = filter (\<lambda>review. rv_movie review = ttl) reviews
                  in if length movieFilteredReviews > 8
                     then allFilteredReviews @ take 8 movieFilteredReviews
                     else allFilteredReviews @ movieFilteredReviews))
               [] movieTitles))"

text \<open>The reviews of the result written for one title.\<close>

definition reviews_of :: "string option \<Rightarrow> Review list \<Rightarrow> Review list" where
  "reviews_of ttl rs = filter (\<lambda>review. rv_movie review = ttl) rs"

text \<open>The titles of the movies released in a year, one per catalog row.\<close>

definition titles_of_year :: "ReviewsMovie list \<Rightarrow> real option \<Rightarrow> string option list" where
  "titles_of_year movies y = map rm_title (filter (\<lambda>movie. num_eq (rm_releaseYear movie) y) movies)"

section \<open>Loading, failure and teardown\<close>

text \<open>
  How the promise of \<^verbatim>\<open>d3.csv\<close> settles: fulfilled with the rows, or rejected with an
  error (its message).
\<close>

datatype 'a Settled = Fulfilled 'a | Rejected string

subsection \<open>McuConnections: load\<close>

record PhaseRange =
  pr_phase :: real
  pr_start :: int
  pr_end :: int

text \<open>\<^verbatim>\<open>d3.group(parsed, d => d.phase).get(p)\<close>, the empty list for \<^verbatim>\<open>undefined\<close>.\<close>

definition phase_group :: "Movie list \<Rightarrow> real \<Rightarrow> Movie list" where
  "phase_group ms p = filter (\<lambda>d. phase d = p) ms"

text \<open>
  \<^verbatim>\<open>new Date((a.getTime() + b.getTime()) / 2)\<close>: a time value is an integer, the fraction
  is cut off towards zero.
\<close>

definition midpoint :: "int \<Rightarrow> int \<Rightarrow> int" where
  "midpoint a b = (if 0 \<le> a + b then (a + b) div 2 else - ((- (a + b)) div 2))"

text \<open>
  The contiguous phase ranges: \<^verbatim>\<open>phases\<close> are the phases 1 to 6 that have a movie,
  \<^verbatim>\<open>boundaries\<close> the overall start, the midpoints between consecutive phases, and the
  overall end.
\<close>

definition phase_ranges :: "Movie list \<Rightarrow> PhaseRange list" where
  "phase_ranges ms =
     (case ms of
        [] \<Rightarrow> []
      | m # rest \<Rightarrow>
         (let phases = filter (\<lambda>p. phase_group ms p \<noteq> []) [1, 2, 3, 4, 5, 6];
              boundaries =
                [releaseDate m] @
                map (\<lambda>i. midpoint (releaseDate (last (phase_group ms (phases ! i))))
                                    (releaseDate (hd (phase_group ms (phases ! (i + 1))))))
                  [0 ..< length phases - 1] @
                [releaseDate (last ms)]
          in map (\<lambda>i. \<lparr>pr_phase = phases ! i, pr_start = boundaries ! i,
                           pr_end = boundaries ! (i + 1)\<rparr>) [0 ..< length phases]))"

text \<open>
  The component as far as the load effect goes: the two pieces of state, the effect's
  local flag \<^verbatim>\<open>cancelled\<close>, the calls of \<^verbatim>\<open>console.error\<close>, and the rejections that no
  handler caught, which the browser hands to the global \<^verbatim>\<open>unhandledrejection\<close> handler.
  \<^verbatim>\<open>setMovies\<close> and \<^verbatim>\<open>setPhaseRanges\<close> are modelled as writing the state.
\<close>

record ConnComponent =
  movies_state :: "Movie list"
  phaseRanges_state :: "PhaseRange list"
  cancelled :: bool
  console_errors :: "string list"
  unhandled_rejections :: "string list"

text \<open>The effect runs: \<^verbatim>\<open>let cancelled = false\<close>, the fetch is in flight.\<close>

definition conn_mounted :: ConnComponent where
  "conn_mounted = \<lparr>movies_state = [], phaseRanges_state = [], cancelled = False,
                    console_errors = [], unhandled_rejections = []\<rparr>"

text \<open>The effect's cleanup, run at teardown: \<^verbatim>\<open>return () => { cancelled = true }\<close>.\<close>

definition conn_cleanup :: "ConnComponent \<Rightarrow> ConnComponent" where
  "conn_cleanup c = c\<lparr>cancelled := True\<rparr>"

text \<open>
  \<^verbatim>\<open>load().catch(err => ...)\<close> once \<^verbatim>\<open>d3.csv\<close> has settled. Nothing in \<^verbatim>\<open>load\<close> throws
  after the \<^verbatim>\<open>await\<close>, so \<^verbatim>\<open>load()\<close> is rejected exactly when \<^verbatim>\<open>d3.csv\<close> is.
\<close>

definition conn_load_settled ::
  "(string \<Rightarrow> real option) \<Rightarrow> (string \<Rightarrow> int option) \<Rightarrow> CsvRow list Settled \<Rightarrow>
   ConnComponent \<Rightarrow> ConnComponent" where
  "conn_load_settled toNumber dateParse result c =
     (case result of
        Fulfilled rows \<Rightarrow>
          (let ps = parsed toNumber dateParse rows;
               ranges = phase_ranges ps
           in if \<not> cancelled c then c\<lparr>movies_state := ps, phaseRanges_state := ranges\<rparr> else c)
      | Rejected err \<Rightarrow>
          (let logged = c\<lparr>console_errors := console_errors c @ [err]\<rparr>
           in if \<not> cancelled c then logged\<lparr>movies_state := [], phaseRanges_state := []\<rparr>
              else logged))"

subsection \<open>RevenueBarChart: loadData\<close>

record RevenueRow =
  rr_id :: "string option"
  rr_title :: "string option"
  rr_release_date :: "string option"
  rr_is_marvel :: "string option"
  rr_budget :: "string option"
  rr_revenue :: "string option"

record RevenueMovie =
  rev_id :: "string option"
  rev_title :: "string option"
  rev_releaseYear :: "real option"
  rev_isMarvel :: "string option"
  rev_budget :: "real option"
  rev_revenue :: "real option"

text \<open>\<^verbatim>\<open>Number(v)\<close> of a string or \<^verbatim>\<open>undefined\<close>; \<^verbatim>\<open>Number(undefined)\<close> is \<^verbatim>\<open>NaN\<close>.\<close>

definition Number_of :: "(string \<Rightarrow> real option) \<Rightarrow> string option \<Rightarrow> real option" where
  "Number_of toNumber v = (case v of None \<Rightarrow> None | Some s \<Rightarrow> toNumber s)"

text \<open>
  The body of \<^verbatim>\<open>for (const dataPoint of data)\<close>. \<^verbatim>\<open>dataPoint.release_date.split("-")\<close>
  throws a \<^verbatim>\<open>TypeError\<close> when the column is missing; \<^verbatim>\<open>split("-")[0]\<close> is the text before
  the first hyphen.
\<close>

definition revenue_movie :: "(string \<Rightarrow> real option) \<Rightarrow> RevenueRow \<Rightarrow> string + RevenueMovie" where
  "revenue_movie toNumber dataPoint =
     (case rr_release_date dataPoint of
        None \<Rightarrow> Inl ''TypeError''
      | Some d \<Rightarrow>
          Inr \<lparr>rev_id = rr_id dataPoint,
               rev_title = rr_title dataPoint,
               rev_releaseYear = toNumber (takeWhile (\<lambda>c. c \<noteq> CHR ''-'') d),
               rev_isMarvel = rr_is_marvel dataPoint,
               rev_budget = Number_of toNumber (rr_budget dataPoint),
               rev_revenue = Number_of toNumber (rr_revenue dataPoint)\<rparr>)"

fun revenue_movies ::
  "(string \<Rightarrow> real option) \<Rightarrow> RevenueMovie list \<Rightarrow> RevenueRow list \<Rightarrow> string + RevenueMovie list" where
  "revenue_movies toNumber moviesData [] = Inr moviesData"
| "revenue_movies toNumber moviesData (dataPoint # data) =
     (case revenue_movie toNumber dataPoint of
        Inl err \<Rightarrow> Inl err
      | Inr movieData \<Rightarrow> revenue_movies toNumber (moviesData @ [movieData]) data)"

text \<open>
  The component has the state \<^verbatim>\<open>movies\<close> and no flag; the record also keeps whether it has
  been torn down, which the component's code never reads.
\<close>

record RevenueComponent =
  revenue_state :: "RevenueMovie list"
  torn_down :: bool
  revenue_console_errors :: "string list"
  revenue_unhandled_rejections :: "string list"

definition revenue_mounted :: RevenueComponent where
  "revenue_mounted = \<lparr>revenue_state = [], torn_down = False, revenue_console_errors = [],
                       revenue_unhandled_rejections = []\<rparr>"

text \<open>Teardown: the effect returns no cleanup function.\<close>

definition revenue_teardown :: "RevenueComponent \<Rightarrow> RevenueComponent" where
  "revenue_teardown c = c\<lparr>torn_down := True\<rparr>"

text \<open>
  \<^verbatim>\<open>loadData()\<close> once \<^verbatim>\<open>d3.csv\<close> has settled: the call has no \<^verbatim>\<open>catch\<close>, so a rejection
  of \<^verbatim>\<open>d3.csv\<close> or an error thrown in the loop rejects the promise of \<^verbatim>\<open>loadData()\<close>, which
  nothing handles.
\<close>

definition revenue_loadData_settled ::
  "(string \<Rightarrow> real option) \<Rightarrow> RevenueRow list Settled \<Rightarrow> RevenueComponent \<Rightarrow> RevenueComponent" where
  "revenue_loadData_settled toNumber result c =
     (case result of
        Rejected err \<Rightarrow> c\<lparr>revenue_unhandled_rejections := revenue_unhandled_rejections c @ [err]\<rparr>
      | Fulfilled data \<Rightarrow>
          (case revenue_movies toNumber [] data of
             Inl err \<Rightarrow> c\<lparr>revenue_unhandled_rejections := revenue_unhandled_rejections c @ [err]\<rparr>
           | Inr moviesData \<Rightarrow> c\<lparr>revenue_state := moviesData\<rparr>))"

section \<open>Sample inputs\<close>

text \<open>
  A small catalog with the release dates of the data set (UTC midnight, in milliseconds),
  and a scale of one pixel per day.
\<close>

definition sample_movie :: "string \<Rightarrow> real \<Rightarrow> int \<Rightarrow> Movie" where
  "sample_movie t p d =
     \<lparr>movie_id = t, title = t, phase = p, releaseDate = d, releaseDateStr = [], posterUrl = None\<rparr>"

definition sample_catalog :: "Movie list" where
  "sample_catalog =
     [sample_movie ''Iron Man'' 1 1209686400000,
      sample_movie ''Iron Man 2'' 1 1273190400000,
      sample_movie ''Thor'' 1 1304640000000,
      sample_movie ''The Avengers'' 1 1336089600000,
      sample_movie ''Iron Man 3'' 2 1367539200000,
      sample_movie ''Captain America: The Winter Soldier'' 2 1396569600000,
      sample_movie ''Captain America: Civil War'' 3 1462492800000]"

definition px_per_day :: "int \<Rightarrow> real" where
  "px_per_day t = real_of_int t / 86400000"

text \<open>The arcs below the line for the sample catalog, with their lanes.\<close>

definition sample_bottom_arcs :: "Arc list" where
  "sample_bottom_arcs =
     arcsOnSide Bottom (resolvedVisible FilterAll (resolvedAll px_per_day sample_catalog CONNECTIONS))"

text \<open>
  A catalog in which, at one pixel per day, the arc of Guardians of the Galaxy starts
  exactly 8px right of the end of the arc of Iron Man.
\<close>

definition touching_catalog :: "Movie list" where
  "touching_catalog =
     [sample_movie ''Iron Man'' 1 0,
      sample_movie ''Iron Man 2'' 1 864000000,
      sample_movie ''Guardians of the Galaxy'' 2 1555200000,
      sample_movie ''Guardians of the Galaxy Vol. 2'' 3 2592000000]"

text \<open>The intervals of the top side that reach \<^verbatim>\<open>assignLanes\<close> for that catalog.\<close>

definition touching_top :: "Resolved list" where
  "touching_top =
     onSide Top (resolvedVisible FilterAll (resolvedAll px_per_day touching_catalog CONNECTIONS))"

text \<open>A scene over the sample catalog: 1000 by 400 px, every card 120 by 36 px.\<close>

definition sample_scene :: "FilterMode \<Rightarrow> Scene" where
  "sample_scene fm =
     \<lparr>sc_x = px_per_day, sc_movies = sample_catalog, sc_conns = CONNECTIONS, sc_filterMode = fm,
      sc_height = 400, sc_box_origin = (0, 0), sc_box_width = 1000, sc_box_height = 400,
      sc_measure = (\<lambda>t. (120, 36))\<rparr>"

text \<open>Label boxes of 120 by 36 px, anchored at a given pixel.\<close>

definition sample_box :: "string \<Rightarrow> real \<Rightarrow> Node" where
  "sample_box t c =
     \<lparr>el = \<lparr>el_text = t, style_left = c, style_top = 0, el_width = 120, el_height = 36\<rparr>, cx = c\<rparr>"

definition sample_nodes :: "Node list" where
  "sample_nodes = [sample_box ''Iron Man 2'' 510, sample_box ''Iron Man'' 500]"

text \<open>
  Their layout in the top band of a container 400px high (\<^verbatim>\<open>topBase = 120\<close>), and of a
  container 100px high (\<^verbatim>\<open>topBase = -30\<close>).
\<close>

definition sample_layout :: "(Node \<times> nat) list" where
  "sample_layout = resolveBandVerticalLayout (0, 0) sample_nodes 120 Up 400 4"

definition cramped_layout :: "(Node \<times> nat) list" where
  "cramped_layout = resolveBandVerticalLayout (0, 0) sample_nodes (- 30) Up 100 4"

text \<open>
  Sample rows, with the values of \<^verbatim>\<open>Number\<close> and \<^verbatim>\<open>new Date\<close> on their fields; the third
  title starts with a no-break space (U+00A0).
\<close>

definition sample_toNumber :: "string \<Rightarrow> real option" where
  "sample_toNumber s =
     (if s = ''1'' then Some 1 else if s = ''1.5'' then Some (3 / 2) else if s = ''2'' then Some 2
      else if s = ''7'' then Some 7 else if s = ''2008'' then Some 2008 else None)"





text \<open>Sample reviews and review-browser catalogs.\<close>

definition sample_review :: "string \<Rightarrow> string \<Rightarrow> Review" where
  "sample_review ttl txt =
     \<lparr>rv_movie = Some ttl, rv_imdbId = None, rv_author = None, rv_date = None,
      rv_reviewRating = None, rv_reviewTitle = None, rv_review = Some txt, rv_likes = None,
      rv_dislikes = None\<rparr>"

definition sample_reviews_movie :: "string \<Rightarrow> real \<Rightarrow> ReviewsMovie" where
  "sample_reviews_movie ttl y =
     \<lparr>rm_id = None, rm_title = Some ttl, rm_releaseYear = Some y, rm_imdbAverageRating = None,
      rm_numberVotes = None\<rparr>"

definition nine_reviews :: "Review list" where
  "nine_reviews =
     map (sample_review ''Iron Man'')
       [''loved it'', ''fine'', ''too long'', ''a classic'', ''fun'', ''loud'', ''great cast'',
        ''rewatched'', ''overrated'']"

definition duplicate_title_movies :: "ReviewsMovie list" where
  "duplicate_title_movies = [sample_reviews_movie ''Iron Man'' 2008, sample_reviews_movie ''Iron Man'' 2008]"

text \<open>
  A catalog with two titles released in 2008, and reviews of all three titles in file
  order.
\<close>

definition hulk_reviews :: "Review list" where
  "hulk_reviews = map (sample_review ''The Incredible Hulk'') [''underrated'', ''forgettable'']"

definition mixed_reviews :: "Review list" where
  "mixed_reviews = nine_reviews @ hulk_reviews @ [sample_review ''Iron Man 2'' ''more of the same'']"

definition three_movies :: "ReviewsMovie list" where
  "three_movies =
     [sample_reviews_movie ''Iron Man'' 2008, sample_reviews_movie ''Iron Man 2'' 2010,
      sample_reviews_movie ''The Incredible Hulk'' 2008]"

text \<open>A row of the revenue data set.\<close>

definition sample_revenue_row :: RevenueRow where
  "sample_revenue_row =
     \<lparr>rr_id = Some ''1726'', rr_title = Some ''Iron Man'', rr_release_date = Some ''2008-04-30'',
      rr_is_marvel = Some ''true'', rr_budget = Some ''1'', rr_revenue = Some ''2''\<rparr>"

section \<open>Verified properties\<close>

subsection \<open>The lane scan and the lane array\<close>

lemma lane_scan_le: "k \<le> length ends \<Longrightarrow> lane_scan ends lX k \<le> length ends"
proof (induction ends lX k rule: lane_scan.induct)
  case (1 ends lX k)
  show ?case
  proof (cases "k < length ends \<and> lX \<le> ends ! k + 8")
    case True
    then have "lane_scan ends lX k = lane_scan ends lX (k + 1)"
      by (subst lane_scan.simps) simp
    with 1 True show ?thesis by simp
  next
    case False
    then have "lane_scan ends lX k = k" by (subst lane_scan.simps) auto
    with 1 show ?thesis by simp
  qed
qed

lemma lane_scan_free:
  "lane_scan ends lX k < length ends \<Longrightarrow> ends ! lane_scan ends lX k + 8 < lX"
proof (induction ends lX k rule: lane_scan.induct)
  case (1 ends lX k)
  show ?case
  proof (cases "k < length ends \<and> lX \<le> ends ! k + 8")
    case True
    then have eq: "lane_scan ends lX k = lane_scan ends lX (k + 1)"
      by (subst lane_scan.simps) simp
    with 1 True show ?thesis by simp
  next
    case False
    then have eq: "lane_scan ends lX k = k" by (subst lane_scan.simps) auto
    with 1(2) False show ?thesis by auto
  qed
qed

lemma length_lane_update: "lan \<le> length ends \<Longrightarrow> lan < length (lane_update ends lan r)"
  by (auto simp: lane_update_def)

lemma length_lane_update_ge: "length ends \<le> length (lane_update ends lan r)"
  by (auto simp: lane_update_def)

lemma nth_lane_update_same: "lan \<le> length ends \<Longrightarrow> lane_update ends lan r ! lan = r"
  by (auto simp: lane_update_def)

lemma nth_lane_update_other:
  "k < length ends \<Longrightarrow> k \<noteq> lan \<Longrightarrow> lane_update ends lan r ! k = ends ! k"
  by (auto simp: lane_update_def nth_append)

lemma assignLanes_from_right_of_ends:
  "\<forall>d \<in> set ds. leftX d \<le> rightX d \<Longrightarrow> a \<in> set (assignLanes_from ends ds) \<Longrightarrow>
   lane a < length ends \<Longrightarrow> ends ! lane a + 8 < leftX (arc a)"
proof (induction ds arbitrary: ends)
  case Nil
  then show ?case by simp
next
  case (Cons d ds)
  define l where "l = lane_scan ends (leftX d) 0"
  define ends' where "ends' = lane_update ends l (rightX d)"
  have l_le: "l \<le> length ends" unfolding l_def by (rule lane_scan_le) simp
  from Cons.prems(2) have "a = \<lparr>arc = d, lane = l\<rparr> \<or> a \<in> set (assignLanes_from ends' ds)"
    by (simp add: l_def ends'_def Let_def)
  then show ?case
  proof
    assume "a = \<lparr>arc = d, lane = l\<rparr>"
    with Cons.prems(3) lane_scan_free[of ends "leftX d" 0] show ?thesis
      by (simp add: l_def)
  next
    assume a_in: "a \<in> set (assignLanes_from ends' ds)"
    have len: "lane a < length ends'"
      using Cons.prems(3) length_lane_update_ge[of ends l "rightX d"] by (simp add: ends'_def)
    from Cons.prems(1) have "\<forall>d \<in> set ds. leftX d \<le> rightX d" by simp
    from Cons.IH[OF this a_in len] have ih: "ends' ! lane a + 8 < leftX (arc a)" .
    show ?thesis
    proof (cases "lane a = l")
      case True
      then have "l < length ends" using Cons.prems(3) by simp
      then have "ends ! l + 8 < leftX d"
        using lane_scan_free[of ends "leftX d" 0] by (simp add: l_def)
      moreover have "leftX d \<le> rightX d" using Cons.prems(1) by simp
      moreover have "ends' ! l = rightX d"
        unfolding ends'_def using l_le by (rule nth_lane_update_same)
      ultimately show ?thesis using ih True by simp
    next
      case False
      then have "ends' ! lane a = ends ! lane a"
        unfolding ends'_def using Cons.prems(3) by (simp add: nth_lane_update_other)
      with ih show ?thesis by simp
    qed
  qed
qed

lemma assignLanes_from_separated:
  "\<forall>d \<in> set ds. leftX d \<le> rightX d \<Longrightarrow>
   sorted_wrt (\<lambda>p q. lane p = lane q \<longrightarrow> rightX (arc p) + 8 < leftX (arc q))
     (assignLanes_from ends ds)"
proof (induction ds arbitrary: ends)
  case Nil
  then show ?case by simp
next
  case (Cons d ds)
  define l where "l = lane_scan ends (leftX d) 0"
  define ends' where "ends' = lane_update ends l (rightX d)"
  have l_le: "l \<le> length ends" unfolding l_def by (rule lane_scan_le) simp
  from Cons.prems have rest: "\<forall>d \<in> set ds. leftX d \<le> rightX d" by simp
  have "rightX d + 8 < leftX (arc a)"
    if "a \<in> set (assignLanes_from ends' ds)" and "lane a = l" for a
  proof -
    have "lane a < length ends'"
      using that(2) l_le by (simp add: ends'_def length_lane_update)
    from assignLanes_from_right_of_ends[OF rest that(1) this]
    show ?thesis using that(2) l_le by (simp add: ends'_def nth_lane_update_same)
  qed
  moreover have "sorted_wrt (\<lambda>p q. lane p = lane q \<longrightarrow> rightX (arc p) + 8 < leftX (arc q))
     (assignLanes_from ends' ds)"
    by (rule Cons.IH[OF rest])
  ultimately show ?case
    by (auto simp: l_def ends'_def Let_def)
qed

lemma map_arc_assignLanes_from: "map arc (assignLanes_from ends ds) = ds"
  by (induction ds arbitrary: ends) (simp_all add: Let_def)

lemma set_map_filter_iff: "y \<in> set (List.map_filter f xs) \<longleftrightarrow> (\<exists>x \<in> set xs. f x = Some y)"
  by (induction xs) (auto split: option.splits)

lemma resolve_left_le_right: "resolve x byT c = Some d \<Longrightarrow> leftX d \<le> rightX d"
  by (auto simp: resolve_def Let_def split: option.splits)

lemma resolvedAll_left_le_right: "d \<in> set (resolvedAll x movies conns) \<Longrightarrow> leftX d \<le> rightX d"
  by (auto simp: resolvedAll_def set_map_filter_iff dest: resolve_left_le_right)

text \<open>
  C1. Lane-assignment invariant. For the intervals of one side, resolved from any catalog
  and any relationship list and filtered by any mode, \<^verbatim>\<open>assignLanes\<close> gives two
  intervals the same lane only if their pixel spans, widened by the 8px gap, do not
  overlap: one ends more than 8px left of the start of the other.
\<close>

theorem assignLanes_no_overlap:
  assumes "arcs = arcsOnSide s (resolvedVisible fm (resolvedAll x movies conns))"
    and "i < j" and "j < length arcs" and "lane (arcs ! i) = lane (arcs ! j)"
  shows "\<not> gap_overlap (arc (arcs ! i)) (arc (arcs ! j))"
proof -
  let ?ds = "onSide s (resolvedVisible fm (resolvedAll x movies conns))"
  have "\<forall>d \<in> set ?ds. leftX d \<le> rightX d"
    by (auto simp: onSide_def resolvedVisible_def dest: resolvedAll_left_le_right)
  then have "sorted_wrt (\<lambda>p q. lane p = lane q \<longrightarrow> rightX (arc p) + 8 < leftX (arc q)) arcs"
    unfolding assms(1) arcsOnSide_def assignLanes_def by (rule assignLanes_from_separated)
  with assms(2-4) have "rightX (arc (arcs ! i)) + 8 < leftX (arc (arcs ! j))"
    by (simp add: sorted_wrt_iff_nth_less)
  then show ?thesis by (simp add: gap_overlap_def)
qed

theorem assignLanes_no_overlap_witness:
  "(0::nat) < 2 \<and> 2 < length sample_bottom_arcs \<and>
   lane (sample_bottom_arcs ! 0) = lane (sample_bottom_arcs ! 2) \<and>
   \<not> gap_overlap (arc (sample_bottom_arcs ! 0)) (arc (sample_bottom_arcs ! 2))"
proof -
  have lanes: "map lane sample_bottom_arcs = [0, 1, 0]"
    by code_simp
  from arg_cong[OF lanes, of length] have len: "length sample_bottom_arcs = 3" by simp
  have "lane (sample_bottom_arcs ! 0) = map lane sample_bottom_arcs ! 0"
    and "lane (sample_bottom_arcs ! 2) = map lane sample_bottom_arcs ! 2"
    using len by simp_all
  then have same: "lane (sample_bottom_arcs ! 0) = lane (sample_bottom_arcs ! 2)"
    by (simp add: lanes)
  have "\<not> gap_overlap (arc (sample_bottom_arcs ! 0)) (arc (sample_bottom_arcs ! 2))"
    using assignLanes_no_overlap[OF sample_bottom_arcs_def, of 0 2] same len by simp
  with same len show ?thesis by simp
qed

subsection \<open>The lane scan is a first fit\<close>

lemma lane_scan_takeWhile:
  "lane_scan ends lX k = k + length (takeWhile (\<lambda>e. lX \<le> e + 8) (drop k ends))"
proof (induction ends lX k rule: lane_scan.induct)
  case (1 ends lX k)
  show ?case
  proof (cases "k < length ends \<and> lX \<le> ends ! k + 8")
    case True
    then have "lane_scan ends lX k = lane_scan ends lX (k + 1)"
      by (subst lane_scan.simps) simp
    also have "\<dots> = k + 1 + length (takeWhile (\<lambda>e. lX \<le> e + 8) (drop (k + 1) ends))"
      using 1 True by simp
    also have "drop k ends = ends ! k # drop (k + 1) ends"
      using True by (simp add: Cons_nth_drop_Suc)
    then have "k + 1 + length (takeWhile (\<lambda>e. lX \<le> e + 8) (drop (k + 1) ends))
      = k + length (takeWhile (\<lambda>e. lX \<le> e + 8) (drop k ends))"
      using True by simp
    finally show ?thesis .
  next
    case False
    then have eq: "lane_scan ends lX k = k" by (subst lane_scan.simps) auto
    show ?thesis
    proof (cases "k < length ends")
      case True
      then have "drop k ends = ends ! k # drop (k + 1) ends"
        by (simp add: Cons_nth_drop_Suc)
      with False True eq show ?thesis by simp
    next
      case False
      with eq show ?thesis by simp
    qed
  qed
qed

lemma lane_scan_first_fit: "lane_scan ends lX 0 = first_fit_lane fits_strict ends lX"
proof -
  have "(\<lambda>e. lX \<le> e + 8) = (\<lambda>e. \<not> fits_strict e lX)"
    by (auto simp: fits_strict_def)
  then show ?thesis by (simp add: lane_scan_takeWhile first_fit_lane_def)
qed

lemma first_fit_lane_le: "first_fit_lane fits edges start \<le> length edges"
  by (simp add: first_fit_lane_def length_takeWhile_le)

lemma assignLanes_from_first_fit:
  "map lane (assignLanes_from ends ds) = first_fit fits_strict ends ds"
proof (induction ds arbitrary: ends)
  case Nil
  then show ?case by simp
next
  case (Cons d ds)
  let ?l = "first_fit_lane fits_strict ends (leftX d)"
  have "?l \<le> length ends" by (rule first_fit_lane_le)
  then have "lane_update ends ?l (rightX d)
      = (if ?l < length ends then ends[?l := rightX d] else ends @ [rightX d])"
    by (auto simp: lane_update_def)
  with Cons.IH show ?case
    by (simp add: lane_scan_first_fit Let_def)
qed

lemma sort_key_start_then_span:
  "sorted_wrt start_then_span (sort_key (\<lambda>d. (leftX d, - span d)) rs)"
proof -
  have "sorted (map (\<lambda>d. (leftX d, - span d)) (sort_key (\<lambda>d. (leftX d, - span d)) rs))"
    by (rule sorted_sort_key)
  then have "sorted_wrt (\<lambda>p q. (leftX p, - span p) \<le> (leftX q, - span q))
      (sort_key (\<lambda>d. (leftX d, - span d)) rs)"
    by (simp add: sorted_map)
  moreover have "(leftX p, - span p) \<le> (leftX q, - span q) \<Longrightarrow> start_then_span p q" for p q
    by (auto simp: start_then_span_def less_eq_prod_def)
  ultimately show ?thesis by (rule sorted_wrt_mono_rel[rotated]) simp
qed

text \<open>
  C2 as stated fails. With the arcs \<open>[0, 10]\<close> and \<open>[18, 30]\<close> on the top side, the
  right-edge 10 of lane 0 equals start \<open>-\<close> gap \<open>= 18 - 8\<close>: the first fit of the
  specification (right-edge \<open>\<le>\<close> start \<open>-\<close> gap) reuses lane 0, \<^verbatim>\<open>assignLanes\<close> opens lane 1,
  because its scan skips a lane while \<^verbatim>\<open>d.leftX <= laneRightEnds[lane] + 8\<close>.
\<close>

theorem first_fit_spec_counterexample:
  "map leftX touching_top = [0, 18] \<and> map rightX touching_top = [10, 30] \<and>
   map lane (assignLanes touching_top) = [0, 1] \<and>
   first_fit fits_spec [] touching_top = [0, 0] \<and>
   map lane (assignLanes touching_top) \<noteq> first_fit fits_spec [] touching_top"
  by code_simp

text \<open>
  C2, amended. The intervals of one side reach \<^verbatim>\<open>assignLanes\<close> sorted by ascending start
  position, ties broken by descending span; \<^verbatim>\<open>assignLanes\<close> keeps them in that order and
  gives each one the first lane, scanning from 0 upward, whose right-edge is strictly less
  than the interval's start minus the 8px gap, opens a new lane if there is none, and sets
  that lane's right-edge to the interval's end.
\<close>

theorem assignLanes_first_fit_strict:
  "sorted_wrt start_then_span (onSide s (resolvedVisible fm (resolvedAll x movies conns))) \<and>
   map arc (assignLanes (onSide s (resolvedVisible fm (resolvedAll x movies conns))))
     = onSide s (resolvedVisible fm (resolvedAll x movies conns)) \<and>
   map lane (assignLanes (onSide s (resolvedVisible fm (resolvedAll x movies conns))))
     = first_fit fits_strict [] (onSide s (resolvedVisible fm (resolvedAll x movies conns)))"
proof -
  have "sorted_wrt start_then_span (resolvedAll x movies conns)"
    unfolding resolvedAll_def by (rule sort_key_start_then_span)
  then have "sorted_wrt start_then_span (onSide s (resolvedVisible fm (resolvedAll x movies conns)))"
    unfolding resolvedVisible_def onSide_def by (intro sorted_wrt_filter)
  then show ?thesis
    by (simp add: assignLanes_def map_arc_assignLanes_from assignLanes_from_first_fit)
qed

theorem assignLanes_first_fit_strict_witness:
  "sorted_wrt start_then_span touching_top \<and>
   map arc (assignLanes touching_top) = touching_top \<and>
   map lane (assignLanes touching_top) = first_fit fits_strict [] touching_top \<and>
   first_fit fits_strict [] touching_top = [0, 1]"
proof -
  have "first_fit fits_strict [] touching_top = [0, 1]"
    by code_simp
  with assignLanes_first_fit_strict[of Top FilterAll px_per_day touching_catalog CONNECTIONS]
  show ?thesis by (simp add: touching_top_def)
qed

subsection \<open>Which relationships are rendered\<close>

lemma byTitle_foldl_dom:
  "dom (foldl (\<lambda>mp m. mp(title m \<mapsto> m)) mp0 ms) = dom mp0 \<union> title ` set ms"
  by (induction ms arbitrary: mp0) auto

lemma byTitle_defined: "byTitle movies t \<noteq> None \<longleftrightarrow> t \<in> title ` set movies"
  using byTitle_foldl_dom[of Map.empty movies] by (auto simp: byTitle_def dom_def)

lemma resolve_conn: "resolve x byT c = Some d \<Longrightarrow> conn d = c"
  by (auto simp: resolve_def Let_def split: option.splits)

lemma resolve_defined:
  "resolve x byT c \<noteq> None \<longleftrightarrow> byT (c_from c) \<noteq> None \<and> byT (c_to c) \<noteq> None"
  by (auto simp: resolve_def Let_def split: option.splits)

lemma map_conn_map_filter_resolve:
  "map conn (List.map_filter (resolve x byT) conns) = filter (\<lambda>c. resolve x byT c \<noteq> None) conns"
  by (induction conns) (auto split: option.splits dest: resolve_conn)

lemma mset_onSide_split: "mset (onSide Top rs) + mset (onSide Bottom rs) = mset rs"
proof (induction rs)
  case Nil
  then show ?case by (simp add: onSide_def)
next
  case (Cons r rs)
  then show ?case by (cases "r_side r") (auto simp: onSide_def)
qed

lemma map_arc_arcsOnSide: "map arc (arcsOnSide s visible) = onSide s visible"
  by (simp add: arcsOnSide_def assignLanes_def map_arc_assignLanes_from)

lemma mset_arcsWithLane:
  "mset (map arc (arcsWithLane fm x movies conns)) = mset (resolvedVisible fm (resolvedAll x movies conns))"
  by (simp add: arcsWithLane_def Let_def map_arc_arcsOnSide mset_onSide_split)

lemma passes_iff: "passes fm d \<longleftrightarrow> fm = FilterAll \<or> fm = FilterType (c_type (conn d))"
  by (cases fm) (auto simp: passes_def)

lemma filter_mset_mset_filter:
  "filter_mset P (mset (filter Q xs)) = mset (filter (\<lambda>c. Q c \<and> P c) xs)"
  by (induction xs) auto

lemma mset_rendered_connections:
  "mset (rendered_connections fm x movies conns) =
   mset (filter (\<lambda>c. c_from c \<in> set (map title movies) \<and> c_to c \<in> set (map title movies) \<and>
                     (fm = FilterAll \<or> fm = FilterType (c_type c))) conns)"
proof -
  let ?byT = "byTitle movies"
  have "mset (rendered_connections fm x movies conns)
      = image_mset conn (mset (map arc (arcsWithLane fm x movies conns)))"
    by (simp add: rendered_connections_def multiset.map_comp comp_def)
  also have "\<dots> = image_mset conn (mset (resolvedVisible fm (resolvedAll x movies conns)))"
    by (simp only: mset_arcsWithLane)
  also have "\<dots> = image_mset conn (filter_mset (passes fm) (mset (List.map_filter (resolve x ?byT) conns)))"
    by (simp add: resolvedVisible_def resolvedAll_def)
  also have "\<dots> = filter_mset (\<lambda>c. fm = FilterAll \<or> fm = FilterType (c_type c))
                     (image_mset conn (mset (List.map_filter (resolve x ?byT) conns)))"
  proof -
    have "passes fm = (\<lambda>d. fm = FilterAll \<or> fm = FilterType (c_type (conn d)))"
      by (rule ext) (simp add: passes_iff)
    then show ?thesis by (simp add: filter_mset_image_mset comp_def)
  qed
  also have "image_mset conn (mset (List.map_filter (resolve x ?byT) conns))
      = mset (filter (\<lambda>c. resolve x ?byT c \<noteq> None) conns)"
    using map_conn_map_filter_resolve[of x ?byT conns] by (metis mset_map)
  also have "filter_mset (\<lambda>c. fm = FilterAll \<or> fm = FilterType (c_type c))
        (mset (filter (\<lambda>c. resolve x ?byT c \<noteq> None) conns))
      = mset (filter (\<lambda>c. c_from c \<in> set (map title movies) \<and> c_to c \<in> set (map title movies) \<and>
                     (fm = FilterAll \<or> fm = FilterType (c_type c))) conns)"
  proof -
    have eq: "(\<lambda>c. resolve x ?byT c \<noteq> None)
        = (\<lambda>c. c_from c \<in> set (map title movies) \<and> c_to c \<in> set (map title movies))"
      by (rule ext) (simp only: resolve_defined byTitle_defined set_map)
    show ?thesis by (simp only: eq filter_mset_mset_filter conj_assoc)
  qed
  finally show ?thesis .
qed

lemma mset_conn_resolvedAll:
  "mset (map conn (resolvedAll x movies conns)) =
   mset (filter (\<lambda>c. c_from c \<in> set (map title movies) \<and> c_to c \<in> set (map title movies)) conns)"
proof -
  let ?byT = "byTitle movies"
  have "mset (map conn (resolvedAll x movies conns))
      = mset (map conn (List.map_filter (resolve x ?byT) conns))"
    by (simp add: resolvedAll_def)
  also have "\<dots> = mset (filter (\<lambda>c. resolve x ?byT c \<noteq> None) conns)"
    by (simp only: map_conn_map_filter_resolve)
  also have "(\<lambda>c. resolve x ?byT c \<noteq> None)
        = (\<lambda>c. c_from c \<in> set (map title movies) \<and> c_to c \<in> set (map title movies))"
    by (rule ext) (simp only: resolve_defined byTitle_defined set_map)
  finally show ?thesis .
qed

text \<open>
  C6. Join-failure handling. A relationship tuple whose \<^verbatim>\<open>from\<close> or \<^verbatim>\<open>to\<close> title matches no
  catalog title exactly is dropped, and every tuple whose endpoints both match is kept,
  once: \<^verbatim>\<open>resolvedAll\<close> holds exactly those tuples, and so do the rendered arcs under the
  default filter mode \<^verbatim>\<open>'all'\<close>. The only other thing that hides a resolved tuple is the
  type filter the user selects, which the last conjunct spells out for every mode.
\<close>

theorem rendered_relationships:
  "mset (map conn (resolvedAll x movies conns)) =
     mset (filter (\<lambda>c. c_from c \<in> set (map title movies) \<and> c_to c \<in> set (map title movies)) conns) \<and>
   mset (rendered_connections FilterAll x movies conns) =
     mset (filter (\<lambda>c. c_from c \<in> set (map title movies) \<and> c_to c \<in> set (map title movies)) conns) \<and>
   mset (rendered_connections fm x movies conns) =
     mset (filter (\<lambda>c. c_from c \<in> set (map title movies) \<and> c_to c \<in> set (map title movies) \<and>
                       (fm = FilterAll \<or> fm = FilterType (c_type c))) conns)"
proof -
  have "mset (rendered_connections FilterAll x movies conns) =
     mset (filter (\<lambda>c. c_from c \<in> set (map title movies) \<and> c_to c \<in> set (map title movies)) conns)"
    using mset_rendered_connections[of FilterAll x movies conns] by simp
  with mset_conn_resolvedAll[of x movies conns] mset_rendered_connections[of fm x movies conns]
  show ?thesis by (intro conjI)
qed

theorem rendered_relationships_witness:
  "mset (map conn (resolvedAll px_per_day sample_catalog CONNECTIONS)) =
     mset [\<lparr>c_type = Sequel, c_from = ''Iron Man'', c_to = ''Iron Man 2'', c_side = Some Top\<rparr>,
         \<lparr>c_type = Sequel, c_from = ''Iron Man 2'', c_to = ''Iron Man 3'', c_side = Some Bottom\<rparr>,
         \<lparr>c_type = Crossover, c_from = ''Iron Man 2'', c_to = ''The Avengers'', c_side = Some Top\<rparr>,
         \<lparr>c_type = Crossover, c_from = ''Thor'', c_to = ''The Avengers'', c_side = Some Bottom\<rparr>,
         \<lparr>c_type = Carryover, c_from = ''The Avengers'',
           c_to = ''Captain America: The Winter Soldier'', c_side = Some Top\<rparr>,
         \<lparr>c_type = Sequel, c_from = ''Captain America: The Winter Soldier'',
           c_to = ''Captain America: Civil War'', c_side = Some Bottom\<rparr>] \<and>
   mset (rendered_connections FilterAll px_per_day sample_catalog CONNECTIONS) =
     mset [\<lparr>c_type = Sequel, c_from = ''Iron Man'', c_to = ''Iron Man 2'', c_side = Some Top\<rparr>,
         \<lparr>c_type = Sequel, c_from = ''Iron Man 2'', c_to = ''Iron Man 3'', c_side = Some Bottom\<rparr>,
         \<lparr>c_type = Crossover, c_from = ''Iron Man 2'', c_to = ''The Avengers'', c_side = Some Top\<rparr>,
         \<lparr>c_type = Crossover, c_from = ''Thor'', c_to = ''The Avengers'', c_side = Some Bottom\<rparr>,
         \<lparr>c_type = Carryover, c_from = ''The Avengers'',
           c_to = ''Captain America: The Winter Soldier'', c_side = Some Top\<rparr>,
         \<lparr>c_type = Sequel, c_from = ''Captain America: The Winter Soldier'',
           c_to = ''Captain America: Civil War'', c_side = Some Bottom\<rparr>] \<and>
   \<lparr>c_type = Sequel, c_from = ''Thor'', c_to = ''Thor: The Dark World'', c_side = Some Bottom\<rparr>
     \<in> set CONNECTIONS \<and>
   \<lparr>c_type = Sequel, c_from = ''Thor'', c_to = ''Thor: The Dark World'', c_side = Some Bottom\<rparr>
     \<notin> set (rendered_connections FilterAll px_per_day sample_catalog CONNECTIONS)"
proof -
  have f: "filter (\<lambda>c. c_from c \<in> set (map title sample_catalog) \<and>
                   c_to c \<in> set (map title sample_catalog)) CONNECTIONS =
        [\<lparr>c_type = Sequel, c_from = ''Iron Man'', c_to = ''Iron Man 2'', c_side = Some Top\<rparr>,
         \<lparr>c_type = Sequel, c_from = ''Iron Man 2'', c_to = ''Iron Man 3'', c_side = Some Bottom\<rparr>,
         \<lparr>c_type = Crossover, c_from = ''Iron Man 2'', c_to = ''The Avengers'', c_side = Some Top\<rparr>,
         \<lparr>c_type = Crossover, c_from = ''Thor'', c_to = ''The Avengers'', c_side = Some Bottom\<rparr>,
         \<lparr>c_type = Carryover, c_from = ''The Avengers'',
           c_to = ''Captain America: The Winter Soldier'', c_side = Some Top\<rparr>,
         \<lparr>c_type = Sequel, c_from = ''Captain America: The Winter Soldier'',
           c_to = ''Captain America: Civil War'', c_side = Some Bottom\<rparr>]"
    by code_simp
  from rendered_relationships[of px_per_day sample_catalog CONNECTIONS FilterAll]
  have r: "mset (map conn (resolvedAll px_per_day sample_catalog CONNECTIONS)) =
        mset [\<lparr>c_type = Sequel, c_from = ''Iron Man'', c_to = ''Iron Man 2'', c_side = Some Top\<rparr>,
         \<lparr>c_type = Sequel, c_from = ''Iron Man 2'', c_to = ''Iron Man 3'', c_side = Some Bottom\<rparr>,
         \<lparr>c_type = Crossover, c_from = ''Iron Man 2'', c_to = ''The Avengers'', c_side = Some Top\<rparr>,
         \<lparr>c_type = Crossover, c_from = ''Thor'', c_to = ''The Avengers'', c_side = Some Bottom\<rparr>,
         \<lparr>c_type = Carryover, c_from = ''The Avengers'',
           c_to = ''Captain America: The Winter Soldier'', c_side = Some Top\<rparr>,
         \<lparr>c_type = Sequel, c_from = ''Captain America: The Winter Soldier'',
           c_to = ''Captain America: Civil War'', c_side = Some Bottom\<rparr>]"
    and a: "mset (rendered_connections FilterAll px_per_day sample_catalog CONNECTIONS) =
        mset [\<lparr>c_type = Sequel, c_from = ''Iron Man'', c_to = ''Iron Man 2'', c_side = Some Top\<rparr>,
         \<lparr>c_type = Sequel, c_from = ''Iron Man 2'', c_to = ''Iron Man 3'', c_side = Some Bottom\<rparr>,
         \<lparr>c_type = Crossover, c_from = ''Iron Man 2'', c_to = ''The Avengers'', c_side = Some Top\<rparr>,
         \<lparr>c_type = Crossover, c_from = ''Thor'', c_to = ''The Avengers'', c_side = Some Bottom\<rparr>,
         \<lparr>c_type = Carryover, c_from = ''The Avengers'',
           c_to = ''Captain America: The Winter Soldier'', c_side = Some Top\<rparr>,
         \<lparr>c_type = Sequel, c_from = ''Captain America: The Winter Soldier'',
           c_to = ''Captain America: Civil War'', c_side = Some Bottom\<rparr>]"
    by (simp_all only: f)
  have m: "\<lparr>c_type = Sequel, c_from = ''Thor'', c_to = ''Thor: The Dark World'', c_side = Some Bottom\<rparr>
     \<in> set CONNECTIONS"
    by code_simp
  have "set (rendered_connections FilterAll px_per_day sample_catalog CONNECTIONS) =
      set [\<lparr>c_type = Sequel, c_from = ''Iron Man'', c_to = ''Iron Man 2'', c_side = Some Top\<rparr>,
         \<lparr>c_type = Sequel, c_from = ''Iron Man 2'', c_to = ''Iron Man 3'', c_side = Some Bottom\<rparr>,
         \<lparr>c_type = Crossover, c_from = ''Iron Man 2'', c_to = ''The Avengers'', c_side = Some Top\<rparr>,
         \<lparr>c_type = Crossover, c_from = ''Thor'', c_to = ''The Avengers'', c_side = Some Bottom\<rparr>,
         \<lparr>c_type = Carryover, c_from = ''The Avengers'',
           c_to = ''Captain America: The Winter Soldier'', c_side = Some Top\<rparr>,
         \<lparr>c_type = Sequel, c_from = ''Captain America: The Winter Soldier'',
           c_to = ''Captain America: Civil War'', c_side = Some Bottom\<rparr>]"
    using arg_cong[OF a, of set_mset] by (simp only: set_mset_mset)
  then have n: "\<lparr>c_type = Sequel, c_from = ''Thor'', c_to = ''Thor: The Dark World'', c_side = Some Bottom\<rparr>
     \<notin> set (rendered_connections FilterAll px_per_day sample_catalog CONNECTIONS)"
    by simp
  from r a m n show ?thesis by (intro conjI)
qed

subsection \<open>The label placer\<close>

lemma clamp_lower: "lo \<le> clamp v lo hi"
  by (simp add: clamp_def)

lemma clamp_upper: "lo \<le> hi \<Longrightarrow> clamp v lo hi \<le> hi"
  by (simp add: clamp_def)

lemma in_band_pushed:
  assumes "in_band containerH a"
  shows "in_band containerH (a\<lparr>el := (el a)\<lparr>style_top := pushed_top origin direction containerH gap a b\<rparr>\<rparr>)"
proof -
  let ?hi = "containerH - el_height (el a) - 6"
  from assms have "6 \<le> ?hi" by (simp add: in_band_def)
  then have "6 \<le> clamp v 6 ?hi \<and> clamp v 6 ?hi \<le> ?hi" for v
    using clamp_lower[of 6 v ?hi] clamp_upper[of 6 ?hi v] by simp
  then show ?thesis
    by (simp add: in_band_def pushed_top_def Let_def getBoundingClientRect_def)
qed

lemma push_loop_stop:
  "\<not> guard < 60 \<Longrightarrow> push_loop origin direction containerH gap finalized guard a = (a, guard)"
  by (subst push_loop.simps) simp

lemma push_loop_settled:
  "guard < 60 \<Longrightarrow>
   find (\<lambda>b. overlaps (getBoundingClientRect origin (el a))
                       (getBoundingClientRect origin (el b)) gap) finalized = None \<Longrightarrow>
   push_loop origin direction containerH gap finalized guard a = (a, guard + 1)"
  by (subst push_loop.simps) simp

lemma push_loop_push:
  "guard < 60 \<Longrightarrow>
   find (\<lambda>b. overlaps (getBoundingClientRect origin (el a))
                       (getBoundingClientRect origin (el b)) gap) finalized = Some b \<Longrightarrow>
   push_loop origin direction containerH gap finalized guard a =
   push_loop origin direction containerH gap finalized (guard + 1)
     (a\<lparr>el := (el a)\<lparr>style_top := pushed_top origin direction containerH gap a b\<rparr>\<rparr>)"
  by (subst push_loop.simps) simp

lemma push_loop_rounds:
  "guard \<le> 60 \<Longrightarrow> snd (push_loop origin direction containerH gap finalized guard a) \<le> 60"
proof (induction origin direction containerH gap finalized guard a rule: push_loop.induct)
  case (1 origin direction containerH gap finalized guard a)
  show ?case
  proof (cases "guard < 60")
    case True
    show ?thesis
    proof (cases "find (\<lambda>b. overlaps (getBoundingClientRect origin (el a))
                                 (getBoundingClientRect origin (el b)) gap) finalized")
      case None
      with True show ?thesis by (simp add: push_loop_settled)
    next
      case (Some b)
      with True 1(1)[OF True Some] show ?thesis by (simp add: push_loop_push)
    qed
  next
    case False
    with 1(2) show ?thesis by (simp add: push_loop_stop)
  qed
qed

lemma push_loop_in_band:
  "in_band containerH a \<Longrightarrow>
   in_band containerH (fst (push_loop origin direction containerH gap finalized guard a))"
proof (induction origin direction containerH gap finalized guard a rule: push_loop.induct)
  case (1 origin direction containerH gap finalized guard a)
  show ?case
  proof (cases "guard < 60")
    case True
    show ?thesis
    proof (cases "find (\<lambda>b. overlaps (getBoundingClientRect origin (el a))
                                 (getBoundingClientRect origin (el b)) gap) finalized")
      case None
      with True 1(2) show ?thesis by (simp add: push_loop_settled)
    next
      case (Some b)
      from 1(1)[OF True Some in_band_pushed[OF 1(2)]] True Some
      show ?thesis by (simp add: push_loop_push)
    qed
  next
    case False
    with 1(2) show ?thesis by (simp add: push_loop_stop)
  qed
qed

lemma push_loop_same_box:
  "el_text (el (fst (push_loop origin direction containerH gap finalized guard a))) = el_text (el a) \<and>
   el_height (el (fst (push_loop origin direction containerH gap finalized guard a))) = el_height (el a) \<and>
   el_width (el (fst (push_loop origin direction containerH gap finalized guard a))) = el_width (el a) \<and>
   style_left (el (fst (push_loop origin direction containerH gap finalized guard a))) = style_left (el a) \<and>
   cx (fst (push_loop origin direction containerH gap finalized guard a)) = cx a"
proof (induction origin direction containerH gap finalized guard a rule: push_loop.induct)
  case (1 origin direction containerH gap finalized guard a)
  show ?case
  proof (cases "guard < 60")
    case True
    show ?thesis
    proof (cases "find (\<lambda>b. overlaps (getBoundingClientRect origin (el a))
                                 (getBoundingClientRect origin (el b)) gap) finalized")
      case None
      with True show ?thesis by (simp add: push_loop_settled)
    next
      case (Some b)
      from 1[OF True Some] True Some
      show ?thesis by (simp add: push_loop_push)
    qed
  next
    case False
    then show ?thesis by (simp add: push_loop_stop)
  qed
qed

lemma length_layout_loop:
  "length (layout_loop origin direction containerH gap finalized todo) = length todo"
  by (induction todo arbitrary: finalized) (simp_all add: Let_def)

lemma layout_loop_bounds:
  "\<forall>a \<in> set todo. in_band containerH a \<Longrightarrow>
   r \<in> set (layout_loop origin direction containerH gap finalized todo) \<Longrightarrow>
   snd r \<le> 60 \<and> in_band containerH (fst r)"
proof (induction todo arbitrary: finalized)
  case Nil
  then show ?case by simp
next
  case (Cons a todo)
  let ?r = "push_loop origin direction containerH gap finalized 0 a"
  from Cons.prems(2) have "r = ?r \<or>
      r \<in> set (layout_loop origin direction containerH gap (finalized @ [fst ?r]) todo)"
    by (simp add: Let_def)
  then show ?case
  proof
    assume "r = ?r"
    moreover have "snd ?r \<le> 60" by (rule push_loop_rounds) simp
    moreover have "in_band containerH (fst ?r)"
      using Cons.prems(1) by (intro push_loop_in_band) simp
    ultimately show ?thesis by simp
  next
    assume "r \<in> set (layout_loop origin direction containerH gap (finalized @ [fst ?r]) todo)"
    with Cons.IH[of "finalized @ [fst ?r]"] Cons.prems(1) show ?thesis by simp
  qed
qed

lemma clamped_top_pushed:
  "clamped_top containerH (a\<lparr>el := (el a)\<lparr>style_top := pushed_top origin direction containerH gap a b\<rparr>\<rparr>)"
  by (auto simp: clamped_top_def in_band_def pushed_top_def Let_def getBoundingClientRect_def clamp_def)

lemma push_loop_rounds_ge:
  "guard \<le> snd (push_loop origin direction containerH gap finalized guard a)"
proof (induction origin direction containerH gap finalized guard a rule: push_loop.induct)
  case (1 origin direction containerH gap finalized guard a)
  show ?case
  proof (cases "guard < 60")
    case True
    show ?thesis
    proof (cases "find (\<lambda>b. overlaps (getBoundingClientRect origin (el a))
                                 (getBoundingClientRect origin (el b)) gap) finalized")
      case None
      with True show ?thesis by (simp add: push_loop_settled)
    next
      case (Some b)
      with True 1[OF True Some] show ?thesis by (simp add: push_loop_push)
    qed
  next
    case False
    then show ?thesis by (simp add: push_loop_stop)
  qed
qed

lemma push_loop_rounds_gt:
  assumes "guard < 60"
  shows "guard < snd (push_loop origin direction containerH gap finalized guard a)"
proof (cases "find (\<lambda>b. overlaps (getBoundingClientRect origin (el a))
                                 (getBoundingClientRect origin (el b)) gap) finalized")
  case None
  with assms show ?thesis by (simp add: push_loop_settled)
next
  case (Some b)
  have "guard + 1 \<le> snd (push_loop origin direction containerH gap finalized (guard + 1)
      (a\<lparr>el := (el a)\<lparr>style_top := pushed_top origin direction containerH gap a b\<rparr>\<rparr>))"
    by (rule push_loop_rounds_ge)
  with assms Some show ?thesis by (simp add: push_loop_push)
qed

lemma push_loop_clamped:
  "clamped_top containerH a \<Longrightarrow>
   clamped_top containerH (fst (push_loop origin direction containerH gap finalized guard a))"
proof (induction origin direction containerH gap finalized guard a rule: push_loop.induct)
  case (1 origin direction containerH gap finalized guard a)
  show ?case
  proof (cases "guard < 60")
    case True
    show ?thesis
    proof (cases "find (\<lambda>b. overlaps (getBoundingClientRect origin (el a))
                                 (getBoundingClientRect origin (el b)) gap) finalized")
      case None
      with True 1(2) show ?thesis by (simp add: push_loop_settled)
    next
      case (Some b)
      from 1(1)[OF True Some clamped_top_pushed] True Some
      show ?thesis by (simp add: push_loop_push)
    qed
  next
    case False
    with 1(2) show ?thesis by (simp add: push_loop_stop)
  qed
qed

lemma push_loop_first_round:
  "(snd (push_loop origin direction containerH gap finalized 0 a) = 1 \<and>
    style_top (el (fst (push_loop origin direction containerH gap finalized 0 a))) = style_top (el a)) \<or>
   (1 < snd (push_loop origin direction containerH gap finalized 0 a) \<and>
    clamped_top containerH (fst (push_loop origin direction containerH gap finalized 0 a)))"
proof (cases "find (\<lambda>b. overlaps (getBoundingClientRect origin (el a))
                                 (getBoundingClientRect origin (el b)) gap) finalized")
  case None
  then show ?thesis by (simp add: push_loop_settled)
next
  case (Some b)
  let ?a' = "a\<lparr>el := (el a)\<lparr>style_top := pushed_top origin direction containerH gap a b\<rparr>\<rparr>"
  have eq: "push_loop origin direction containerH gap finalized 0 a
      = push_loop origin direction containerH gap finalized (0 + 1) ?a'"
    using Some by (intro push_loop_push) simp_all
  have "0 + 1 < snd (push_loop origin direction containerH gap finalized (0 + 1) ?a')"
    by (rule push_loop_rounds_gt) simp
  moreover have "clamped_top containerH (fst (push_loop origin direction containerH gap finalized (0 + 1) ?a'))"
    by (rule push_loop_clamped) (rule clamped_top_pushed)
  ultimately show ?thesis
    unfolding eq by simp
qed

lemma layout_loop_rounds:
  "\<forall>a \<in> set todo. style_top (el a) = baseTop \<Longrightarrow>
   r \<in> set (layout_loop origin direction containerH gap finalized todo) \<Longrightarrow>
   snd r \<le> 60 \<and>
   (snd r = 1 \<and> style_top (el (fst r)) = baseTop \<or> 1 < snd r \<and> clamped_top containerH (fst r))"
proof (induction todo arbitrary: finalized)
  case Nil
  then show ?case by simp
next
  case (Cons a todo)
  let ?r = "push_loop origin direction containerH gap finalized 0 a"
  from Cons.prems(2) have "r = ?r \<or>
      r \<in> set (layout_loop origin direction containerH gap (finalized @ [fst ?r]) todo)"
    by (simp add: Let_def)
  then show ?case
  proof
    assume r: "r = ?r"
    have "snd ?r \<le> 60" by (rule push_loop_rounds) simp
    moreover have "style_top (el a) = baseTop" using Cons.prems(1) by simp
    ultimately show ?thesis
      using push_loop_first_round[of origin direction containerH gap finalized a] r by auto
  next
    assume "r \<in> set (layout_loop origin direction containerH gap (finalized @ [fst ?r]) todo)"
    with Cons.IH[of "finalized @ [fst ?r]"] Cons.prems(1) show ?thesis by simp
  qed
qed

text \<open>
  C3 as stated fails in its second half. A box that no earlier box overlaps is never pushed
  and keeps the initial \<^verbatim>\<open>baseTop\<close>, which is not clamped: in a container 100px high the top
  band starts at \<^verbatim>\<open>yMid - 80 = -30\<close>, and a single box is returned at top \<open>-30\<close>, below the
  band's lower bound 6.
\<close>

theorem resolveBandVerticalLayout_counterexample:
  "style_top (el (fst (resolveBandVerticalLayout (0, 0) [sample_box ''Iron Man'' 500] (- 30) Up 100 4 ! 0)))
     = - 30 \<and>
   snd (resolveBandVerticalLayout (0, 0) [sample_box ''Iron Man'' 500] (- 30) Up 100 4 ! 0) = 1 \<and>
   \<not> in_band 100 (fst (resolveBandVerticalLayout (0, 0) [sample_box ''Iron Man'' 500] (- 30) Up 100 4 ! 0))"
  by code_simp

text \<open>
  C3, amended. For every input (any number of boxes, any sizes, any \<^verbatim>\<open>baseTop\<close>) the
  collision resolver is a total function: it returns one result per box, and each box's
  push loop runs at most 60 rounds. A box that is never pushed (its loop runs one round)
  keeps the initial \<^verbatim>\<open>baseTop\<close>; a box that is pushed is returned with a top between 6 and
  \<^verbatim>\<open>containerH - boxHeight - 6\<close>, or at 6 when that band is empty. So if \<^verbatim>\<open>baseTop\<close> lies
  within the band of every box, every returned top lies within the band.
\<close>

theorem resolveBandVerticalLayout_bounds:
  "length (resolveBandVerticalLayout origin nodes baseTop direction containerH gap) = length nodes \<and>
   (\<forall>r \<in> set (resolveBandVerticalLayout origin nodes baseTop direction containerH gap).
      snd r \<le> 60 \<and>
      (snd r = 1 \<and> style_top (el (fst r)) = baseTop \<or>
       1 < snd r \<and> clamped_top containerH (fst r))) \<and>
   ((\<forall>n \<in> set nodes. 6 \<le> baseTop \<and> baseTop \<le> containerH - el_height (el n) - 6) \<longrightarrow>
    (\<forall>r \<in> set (resolveBandVerticalLayout origin nodes baseTop direction containerH gap).
       in_band containerH (fst r)))"
proof -
  let ?based = "map (\<lambda>n. n\<lparr>el := (el n)\<lparr>style_top := baseTop\<rparr>\<rparr>) (sort_key cx nodes)"
  let ?R = "resolveBandVerticalLayout origin nodes baseTop direction containerH gap"
  have R: "?R = layout_loop origin direction containerH gap [] ?based"
    by (simp add: resolveBandVerticalLayout_def Let_def)
  have len: "length ?R = length nodes"
    by (simp add: R length_layout_loop)
  have "\<forall>a \<in> set ?based. style_top (el a) = baseTop" by simp
  then have rounds: "\<forall>r \<in> set ?R. snd r \<le> 60 \<and>
      (snd r = 1 \<and> style_top (el (fst r)) = baseTop \<or> 1 < snd r \<and> clamped_top containerH (fst r))"
    unfolding R using layout_loop_rounds by blast
  have band: "\<forall>r \<in> set ?R. in_band containerH (fst r)"
    if h: "\<forall>n \<in> set nodes. 6 \<le> baseTop \<and> baseTop \<le> containerH - el_height (el n) - 6"
  proof -
    have "\<forall>a \<in> set ?based. in_band containerH a"
      using h by (auto simp: in_band_def)
    then show ?thesis unfolding R using layout_loop_bounds by blast
  qed
  from len rounds band show ?thesis by blast
qed

theorem resolveBandVerticalLayout_bounds_witness:
  "sample_layout =
     [(\<lparr>el = \<lparr>el_text = ''Iron Man'', style_left = 500, style_top = 120, el_width = 120,
              el_height = 36\<rparr>, cx = 500\<rparr>, 1),
      (\<lparr>el = \<lparr>el_text = ''Iron Man 2'', style_left = 510, style_top = 72, el_width = 120,
              el_height = 36\<rparr>, cx = 510\<rparr>, 3)] \<and>
   snd (sample_layout ! 1) \<le> 60 \<and>
   in_band 400 (fst (sample_layout ! 1)) \<and>
   cramped_layout =
     [(\<lparr>el = \<lparr>el_text = ''Iron Man'', style_left = 500, style_top = - 30, el_width = 120,
              el_height = 36\<rparr>, cx = 500\<rparr>, 1),
      (\<lparr>el = \<lparr>el_text = ''Iron Man 2'', style_left = 510, style_top = 6, el_width = 120,
              el_height = 36\<rparr>, cx = 510\<rparr>, 60)] \<and>
   snd (cramped_layout ! 1) \<le> 60 \<and>
   clamped_top 100 (fst (cramped_layout ! 1))"
proof -
  have v1: "sample_layout =
     [(\<lparr>el = \<lparr>el_text = ''Iron Man'', style_left = 500, style_top = 120, el_width = 120,
              el_height = 36\<rparr>, cx = 500\<rparr>, 1),
      (\<lparr>el = \<lparr>el_text = ''Iron Man 2'', style_left = 510, style_top = 72, el_width = 120,
              el_height = 36\<rparr>, cx = 510\<rparr>, 3)]"
    by code_simp
  have v2: "cramped_layout =
     [(\<lparr>el = \<lparr>el_text = ''Iron Man'', style_left = 500, style_top = - 30, el_width = 120,
              el_height = 36\<rparr>, cx = 500\<rparr>, 1),
      (\<lparr>el = \<lparr>el_text = ''Iron Man 2'', style_left = 510, style_top = 6, el_width = 120,
              el_height = 36\<rparr>, cx = 510\<rparr>, 60)]"
    by code_simp
  have m1: "sample_layout ! 1 \<in> set sample_layout" by (simp add: v1)
  have m2: "cramped_layout ! 1 \<in> set cramped_layout" by (simp add: v2)
  have band: "\<forall>n \<in> set sample_nodes. (6 :: real) \<le> 120 \<and> 120 \<le> 400 - el_height (el n) - 6"
    by (simp add: sample_nodes_def sample_box_def)
  from resolveBandVerticalLayout_bounds[of "(0, 0)" sample_nodes 120 Up 400 4] band
  have "\<forall>r \<in> set sample_layout. snd r \<le> 60" and "\<forall>r \<in> set sample_layout. in_band 400 (fst r)"
    unfolding sample_layout_def by blast+
  with m1 have a: "snd (sample_layout ! 1) \<le> 60" "in_band 400 (fst (sample_layout ! 1))"
    by blast+
  from resolveBandVerticalLayout_bounds[of "(0, 0)" sample_nodes "- 30" Up 100 4]
  have "\<forall>r \<in> set cramped_layout. snd r \<le> 60 \<and>
      (snd r = 1 \<and> style_top (el (fst r)) = - 30 \<or> 1 < snd r \<and> clamped_top 100 (fst r))"
    unfolding cramped_layout_def by blast
  with m2 have "snd (cramped_layout ! 1) \<le> 60 \<and>
      (snd (cramped_layout ! 1) = 1 \<and> style_top (el (fst (cramped_layout ! 1))) = - 30 \<or>
       1 < snd (cramped_layout ! 1) \<and> clamped_top 100 (fst (cramped_layout ! 1)))"
    by blast
  moreover have "snd (cramped_layout ! 1) = 60" by (simp add: v2)
  ultimately have b: "snd (cramped_layout ! 1) \<le> 60" "clamped_top 100 (fst (cramped_layout ! 1))"
    by simp_all
  from v1 v2 a b show ?thesis by (intro conjI)
qed

subsection \<open>The highlight set and its label cards\<close>

lemma byTitle_foldl_title:
  "\<forall>t m. mp0 t = Some m \<longrightarrow> title m = t \<Longrightarrow>
   foldl (\<lambda>mp m. mp(title m \<mapsto> m)) mp0 ms t = Some m \<Longrightarrow> title m = t"
proof (induction ms arbitrary: mp0)
  case Nil
  then show ?case by simp
next
  case (Cons a ms)
  have "\<forall>t m. (mp0(title a \<mapsto> a)) t = Some m \<longrightarrow> title m = t"
    using Cons.prems(1) by auto
  moreover have "foldl (\<lambda>mp m. mp(title m \<mapsto> m)) (mp0(title a \<mapsto> a)) ms t = Some m"
    using Cons.prems(2) by (simp only: foldl_Cons)
  ultimately show ?case by (rule Cons.IH)
qed

lemma byTitle_title: "byTitle movies t = Some m \<Longrightarrow> title m = t"
  unfolding byTitle_def by (rule byTitle_foldl_title[of Map.empty]) simp_all

lemma set_foldl_set_add:
  "set (foldl (\<lambda>s a. set_add s (f a)) init xs) = set init \<union> f ` set xs"
  by (induction xs arbitrary: init) (auto simp: set_add_def)

lemma distinct_foldl_set_add:
  "distinct init \<Longrightarrow> distinct (foldl (\<lambda>s a. set_add s (f a)) init xs)"
  by (induction xs arbitrary: init) (auto simp: set_add_def)

lemma set_highlightTitles:
  "set (highlightTitles arcs h) =
   insert h (c_to ` {c \<in> set (map (\<lambda>a. conn (arc a)) arcs). c_from c = h})"
  by (auto simp: highlightTitles_def Let_def set_foldl_set_add)

lemma distinct_highlightTitles: "distinct (highlightTitles arcs h)"
  by (simp add: highlightTitles_def Let_def distinct_foldl_set_add)

lemma map_title_map_filter_byTitle:
  "\<forall>t \<in> set ts. t \<in> set (map title movies) \<Longrightarrow>
   map title (List.map_filter (byTitle movies) ts) = ts"
proof (induction ts)
  case Nil
  then show ?case by simp
next
  case (Cons t ts)
  then have "t \<in> title ` set movies" by simp
  then obtain m where m: "byTitle movies t = Some m"
    using byTitle_defined[of movies t] by auto
  with byTitle_title[OF m] Cons show ?case by simp
qed

lemma map_card_m_cardData:
  "map card_m (cardData sc ts anchor) =
   sort_key (\<lambda>m. sc_x sc (releaseDate m)) (List.map_filter (byTitle (sc_movies sc)) ts)"
proof -
  have "map card_m (map (\<lambda>(i, m). \<lparr>card_m = m,
            card_top = (if title m = anchor then True else i mod 2 = 0),
            isAnchor = (title m = anchor), card_i = i\<rparr>) (enumerate n xs)) = xs" for n and xs :: "Movie list"
    by (induction xs arbitrary: n) simp_all
  then show ?thesis by (simp add: cardData_def Let_def)
qed

lemma map_text_layout_loop:
  "map (\<lambda>r. el_text (el (fst r))) (layout_loop origin direction containerH gap finalized todo)
   = map (\<lambda>n. el_text (el n)) todo"
  by (induction todo arbitrary: finalized) (simp_all add: Let_def push_loop_same_box)

lemma mset_text_resolveBand:
  "mset (map (\<lambda>r. el_text (el (fst r))) (resolveBandVerticalLayout origin nodes baseTop direction containerH gap))
   = mset (map (\<lambda>n. el_text (el n)) nodes)"
proof -
  have "mset (map (\<lambda>n. el_text (el n)) (sort_key cx nodes)) = mset (map (\<lambda>n. el_text (el n)) nodes)"
    by (metis mset_map mset_sort)
  then show ?thesis
    by (simp add: resolveBandVerticalLayout_def Let_def map_text_layout_loop comp_def)
qed

lemma map_text_band_nodes:
  "map (\<lambda>n. el_text (el n)) (band_nodes sc band cards)
   = map (\<lambda>d. title (card_m d)) (filter (\<lambda>d. card_top d = band) cards)"
  by (simp add: band_nodes_def card_label_def Let_def comp_def)

lemma mset_map_filter_partition:
  "mset (map f (filter (\<lambda>d. P d = True) xs)) + mset (map f (filter (\<lambda>d. P d = False) xs))
   = mset (map f xs)"
  by (induction xs) auto

lemma mset_text_renderMultiTooltips:
  "mset (map el_text (renderMultiTooltips sc ts anchor))
   = mset (map title (List.map_filter (byTitle (sc_movies sc)) ts))"
proof -
  let ?cards = "cardData sc ts anchor"
  have "mset (map el_text (renderMultiTooltips sc ts anchor))
      = mset (map (\<lambda>d. title (card_m d)) (filter (\<lambda>d. card_top d = True) ?cards))
        + mset (map (\<lambda>d. title (card_m d)) (filter (\<lambda>d. card_top d = False) ?cards))"
    by (simp add: renderMultiTooltips_def Let_def comp_def mset_text_resolveBand map_text_band_nodes
        del: mset_map)
  also have "\<dots> = mset (map (\<lambda>d. title (card_m d)) ?cards)"
    by (rule mset_map_filter_partition)
  also have "\<dots> = mset (map title (map card_m ?cards))"
    by (simp add: comp_def)
  also have "\<dots> = mset (map title (List.map_filter (byTitle (sc_movies sc)) ts))"
    by (simp only: map_card_m_cardData mset_map mset_sort)
  finally show ?thesis .
qed

lemma set_rendered_connections:
  "set (rendered_connections fm x movies conns) =
   {c \<in> set conns. c_from c \<in> set (map title movies) \<and> c_to c \<in> set (map title movies) \<and>
                    (fm = FilterAll \<or> fm = FilterType (c_type c))}"
proof -
  have "set (rendered_connections fm x movies conns) = set_mset (mset (rendered_connections fm x movies conns))"
    by simp
  also have "\<dots> = set (filter (\<lambda>c. c_from c \<in> set (map title movies) \<and> c_to c \<in> set (map title movies) \<and>
                     (fm = FilterAll \<or> fm = FilterType (c_type c))) conns)"
    by (simp only: mset_rendered_connections set_mset_mset)
  finally show ?thesis by simp
qed

lemma set_highlightTitles_scene:
  "set (highlightTitles (sc_arcs sc) h) =
   insert h (set (map c_to (filter (\<lambda>c. c_from c = h \<and>
       c_from c \<in> set (map title (sc_movies sc)) \<and> c_to c \<in> set (map title (sc_movies sc)) \<and>
       (sc_filterMode sc = FilterAll \<or> sc_filterMode sc = FilterType (c_type c))) (sc_conns sc))))"
proof -
  have "map (\<lambda>a. conn (arc a)) (sc_arcs sc)
      = rendered_connections (sc_filterMode sc) (sc_x sc) (sc_movies sc) (sc_conns sc)"
    by (simp add: sc_arcs_def rendered_connections_def)
  then show ?thesis
    by (auto simp: set_highlightTitles set_rendered_connections)
qed

text \<open>
  C4 as stated fails. Hovering Iron Man 2 with every arc shown leaves out Iron Man, which
  the relationship list joins to it (the sequel tuple from Iron Man to Iron Man 2): only
  the arcs going out of the hovered title count. With the filter mode \<^verbatim>\<open>'sequel'\<close> it
  also leaves out The Avengers, the target of a crossover tuple from Iron Man 2: only the
  arcs currently rendered count.
\<close>

theorem applyHighlight_counterexample:
  "''Iron Man'' \<in> set (connected_titles CONNECTIONS ''Iron Man 2'') \<and>
   ''Iron Man'' \<in> set (map title (sc_movies (sample_scene FilterAll))) \<and>
   ''Iron Man'' \<notin> set (highlightTitles (sc_arcs (sample_scene FilterAll)) ''Iron Man 2'') \<and>
   ''The Avengers'' \<in> set (connected_titles CONNECTIONS ''Iron Man 2'') \<and>
   ''The Avengers'' \<in> set (map title (sc_movies (sample_scene (FilterType Sequel)))) \<and>
   ''The Avengers'' \<notin> set (highlightTitles (sc_arcs (sample_scene (FilterType Sequel))) ''Iron Man 2'')"
  by code_simp

text \<open>
  C4, amended. When the pointer enters the dot of a catalog title, the highlight set is the
  hovered title plus the \<^verbatim>\<open>to\<close> titles of the rendered arcs that start at it: the tuples
  of the relationship list whose \<^verbatim>\<open>from\<close> is the hovered title, whose endpoints are both in
  the catalog and whose type passes the filter mode. \<^verbatim>\<open>renderMultiTooltips\<close> leaves exactly
  one label card per member of that set in the overlay, after the collision pass of each
  band, and \<^verbatim>\<open>clearHighlight\<close> on pointer-leave removes every label card.
\<close>

theorem applyHighlight_set:
  assumes "hoverTitle \<in> set (map title (sc_movies sc))"
  shows "set (highlightTitles (sc_arcs sc) hoverTitle) =
           insert hoverTitle (set (map c_to (filter (\<lambda>c. c_from c = hoverTitle \<and>
             c_from c \<in> set (map title (sc_movies sc)) \<and> c_to c \<in> set (map title (sc_movies sc)) \<and>
             (sc_filterMode sc = FilterAll \<or> sc_filterMode sc = FilterType (c_type c))) (sc_conns sc)))) \<and>
         distinct (highlightTitles (sc_arcs sc) hoverTitle) \<and>
         mset (map el_text (labels (applyHighlight sc hoverTitle s))) =
           mset (highlightTitles (sc_arcs sc) hoverTitle) \<and>
         labels (clearHighlight (applyHighlight sc hoverTitle s)) = []"
proof -
  let ?hl = "highlightTitles (sc_arcs sc) hoverTitle"
  have in_cat: "\<forall>t \<in> set ?hl. t \<in> set (map title (sc_movies sc))"
    using assms by (auto simp: set_highlightTitles_scene)
  have "mset (map el_text (labels (applyHighlight sc hoverTitle s)))
      = mset (map title (List.map_filter (byTitle (sc_movies sc)) ?hl))"
    by (simp add: applyHighlight_def Let_def mset_text_renderMultiTooltips del: mset_map)
  also have "\<dots> = mset ?hl"
    by (simp only: map_title_map_filter_byTitle[OF in_cat])
  finally have "mset (map el_text (labels (applyHighlight sc hoverTitle s))) = mset ?hl" .
  moreover have "labels (clearHighlight (applyHighlight sc hoverTitle s)) = []"
    by (simp add: clearHighlight_def clearMultiTooltips_def)
  ultimately show ?thesis
    using set_highlightTitles_scene[of sc hoverTitle] distinct_highlightTitles[of "sc_arcs sc" hoverTitle]
    by blast
qed

theorem applyHighlight_set_witness:
  "''Iron Man 2'' \<in> set (map title (sc_movies (sample_scene FilterAll))) \<and>
   highlightTitles (sc_arcs (sample_scene FilterAll)) ''Iron Man 2''
     = [''Iron Man 2'', ''The Avengers'', ''Iron Man 3''] \<and>
   mset (map el_text (labels (applyHighlight (sample_scene FilterAll) ''Iron Man 2''
                                (initial_surface (sample_scene FilterAll)))))
     = mset [''Iron Man 2'', ''The Avengers'', ''Iron Man 3''] \<and>
   labels (clearHighlight (applyHighlight (sample_scene FilterAll) ''Iron Man 2''
                             (initial_surface (sample_scene FilterAll)))) = []"
proof -
  have prem: "''Iron Man 2'' \<in> set (map title (sc_movies (sample_scene FilterAll)))"
    by code_simp
  have hl: "highlightTitles (sc_arcs (sample_scene FilterAll)) ''Iron Man 2''
      = [''Iron Man 2'', ''The Avengers'', ''Iron Man 3'']"
    by code_simp
  from applyHighlight_set[OF prem, of "initial_surface (sample_scene FilterAll)"] prem hl
  show ?thesis by (simp only:)
qed

subsection \<open>The parsed catalog\<close>














subsection \<open>The temporal scale on a degenerate domain\<close>



subsection \<open>The review browser\<close>

lemma foldl_append_blocks:
  assumes "\<And>acc t. f acc t = acc @ g t"
  shows "foldl f acc ts = acc @ concat (map g ts)"
  by (induction ts arbitrary: acc) (simp_all add: assms)

lemma filteredReviews_concat:
  "filteredReviews movies reviews (Some y)
   = concat (map (\<lambda>ttl. take 8 (reviews_of ttl reviews)) (titles_of_year movies y))"
proof -
  have "foldl (\<lambda>allFilteredReviews ttl.
        (let movieFilteredReviews = filter (\<lambda>review. rv_movie review = ttl) reviews
         in if length movieFilteredReviews > 8
            then allFilteredReviews @ take 8 movieFilteredReviews
            else allFilteredReviews @ movieFilteredReviews)) [] (titles_of_year movies y)
      = [] @ concat (map (\<lambda>ttl. take 8 (reviews_of ttl reviews)) (titles_of_year movies y))"
    by (rule foldl_append_blocks) (simp add: Let_def reviews_of_def)
  then show ?thesis
    by (simp add: filteredReviews_def titles_of_year_def Let_def)
qed

lemma reviews_of_take_other:
  assumes "t \<noteq> u"
  shows "reviews_of t (take n (reviews_of u reviews)) = []"
proof -
  have "rv_movie r = u" if "r \<in> set (take n (reviews_of u reviews))" for r
    using in_set_takeD[OF that] by (simp add: reviews_of_def)
  with assms have "\<forall>r \<in> set (take n (reviews_of u reviews)). rv_movie r \<noteq> t" by blast
  then show ?thesis
    unfolding reviews_of_def[of t] by (simp only: filter_False)
qed

lemma reviews_of_take_same:
  "reviews_of t (take n (reviews_of t reviews)) = take n (reviews_of t reviews)"
proof -
  have "rv_movie r = t" if "r \<in> set (take n (reviews_of t reviews))" for r
    using in_set_takeD[OF that] by (simp add: reviews_of_def)
  then have "\<forall>r \<in> set (take n (reviews_of t reviews)). rv_movie r = t" by blast
  then show ?thesis
    unfolding reviews_of_def[of t "take n (reviews_of t reviews)"] by (simp only: filter_True)
qed

lemma reviews_of_append: "reviews_of t (xs @ ys) = reviews_of t xs @ reviews_of t ys"
  by (simp add: reviews_of_def)

lemma reviews_of_blocks:
  "distinct ts \<Longrightarrow>
   reviews_of t (concat (map (\<lambda>ttl. take 8 (reviews_of ttl reviews)) ts))
   = (if t \<in> set ts then take 8 (reviews_of t reviews) else [])"
proof (induction ts)
  case Nil
  then show ?case by (simp add: reviews_of_def)
next
  case (Cons u ts)
  show ?case
  proof (cases "t = u")
    case True
    with Cons show ?thesis
      by (simp add: reviews_of_append reviews_of_take_same)
  next
    case False
    with Cons show ?thesis
      by (simp add: reviews_of_append reviews_of_take_other)
  qed
qed

lemma reviews_of_blocks_length:
  "length (reviews_of t (concat (map (\<lambda>ttl. take 8 (reviews_of ttl reviews)) ts)))
   \<le> 8 * count_list ts t"
proof (induction ts)
  case Nil
  then show ?case by (simp add: reviews_of_def)
next
  case (Cons u ts)
  show ?case
  proof (cases "t = u")
    case True
    have "length (take 8 (reviews_of t reviews)) \<le> 8" by simp
    with Cons True show ?thesis
      by (simp add: reviews_of_append reviews_of_take_same)
  next
    case False
    with Cons show ?thesis
      by (simp add: reviews_of_append reviews_of_take_other)
  qed
qed

text \<open>
  C10 as stated fails. The loop runs once per catalog row of the selected year, not once
  per distinct title: with two rows titled Iron Man in 2008 and nine reviews of Iron Man,
  the filtered list holds the first eight reviews twice, sixteen reviews for one title.
\<close>

theorem filteredReviews_counterexample:
  "length (reviews_of (Some ''Iron Man'')
     (filteredReviews duplicate_title_movies nine_reviews (Some (Some 2008)))) = 16"
  by code_simp

text \<open>
  C10, amended. When no year is selected the filtered list is empty. For every selected
  year, whatever the catalog, it is the concatenation, over the catalog rows of that year
  in file order, of the first 8 reviews (all of them when there are at most 8) whose title
  is the row's title: at most 8 reviews of a title per catalog row of that year bearing
  it. When the titles of that year's rows are distinct, it therefore holds, for each
  title, exactly the first 8 reviews of it in file order, at most 8.
\<close>

theorem filteredReviews_limit:
  "filteredReviews movies reviews None = [] \<and>
   filteredReviews movies reviews (Some y)
     = concat (map (\<lambda>ttl. take 8 (reviews_of ttl reviews)) (titles_of_year movies y)) \<and>
   length (reviews_of t (filteredReviews movies reviews (Some y)))
     \<le> 8 * count_list (titles_of_year movies y) t \<and>
   (distinct (titles_of_year movies y) \<longrightarrow>
      reviews_of t (filteredReviews movies reviews (Some y))
        = (if t \<in> set (titles_of_year movies y) then take 8 (reviews_of t reviews) else []) \<and>
      length (reviews_of t (filteredReviews movies reviews (Some y))) \<le> 8)"
proof -
  have none: "filteredReviews movies reviews None = []"
    by (simp add: filteredReviews_def)
  have count: "length (reviews_of t (filteredReviews movies reviews (Some y)))
      \<le> 8 * count_list (titles_of_year movies y) t"
    by (simp only: filteredReviews_concat reviews_of_blocks_length)
  have dist: "reviews_of t (filteredReviews movies reviews (Some y))
        = (if t \<in> set (titles_of_year movies y) then take 8 (reviews_of t reviews) else []) \<and>
      length (reviews_of t (filteredReviews movies reviews (Some y))) \<le> 8"
    if "distinct (titles_of_year movies y)"
  proof -
    have "reviews_of t (filteredReviews movies reviews (Some y))
        = (if t \<in> set (titles_of_year movies y) then take 8 (reviews_of t reviews) else [])"
      using that by (simp add: filteredReviews_concat reviews_of_blocks)
    moreover from this have "length (reviews_of t (filteredReviews movies reviews (Some y))) \<le> 8"
      by simp
    ultimately show ?thesis by blast
  qed
  from none filteredReviews_concat[of movies reviews y] count dist show ?thesis by blast
qed

theorem filteredReviews_limit_witness:
  "titles_of_year three_movies (Some 2008) = [Some ''Iron Man'', Some ''The Incredible Hulk''] \<and>
   distinct (titles_of_year three_movies (Some 2008)) \<and>
   filteredReviews three_movies mixed_reviews (Some (Some 2008)) = take 8 nine_reviews @ hulk_reviews \<and>
   reviews_of (Some ''Iron Man'') (filteredReviews three_movies mixed_reviews (Some (Some 2008)))
     = take 8 (reviews_of (Some ''Iron Man'') mixed_reviews) \<and>
   length (reviews_of (Some ''Iron Man'') (filteredReviews three_movies mixed_reviews (Some (Some 2008)))) \<le> 8"
proof -
  have ts: "titles_of_year three_movies (Some 2008) = [Some ''Iron Man'', Some ''The Incredible Hulk'']"
    by code_simp
  then have d: "distinct (titles_of_year three_movies (Some 2008))" by simp
  have v: "filteredReviews three_movies mixed_reviews (Some (Some 2008)) = take 8 nine_reviews @ hulk_reviews"
    by code_simp
  from filteredReviews_limit[of three_movies mixed_reviews "Some 2008" "Some ''Iron Man''"] d
  have "reviews_of (Some ''Iron Man'') (filteredReviews three_movies mixed_reviews (Some (Some 2008)))
        = (if Some ''Iron Man'' \<in> set (titles_of_year three_movies (Some 2008))
           then take 8 (reviews_of (Some ''Iron Man'') mixed_reviews) else [])"
    and l: "length (reviews_of (Some ''Iron Man'')
              (filteredReviews three_movies mixed_reviews (Some (Some 2008)))) \<le> 8"
    by blast+
  then have r: "reviews_of (Some ''Iron Man'') (filteredReviews three_movies mixed_reviews (Some (Some 2008)))
        = take 8 (reviews_of (Some ''Iron Man'') mixed_reviews)"
    by (simp add: ts)
  from ts d v r l show ?thesis by (intro conjI)
qed

subsection \<open>Failure and teardown of the loaders\<close>

text \<open>
  McuConnections handles both at the load boundary: a rejected fetch is logged, resets the
  state to empty collections and reaches no global handler, and once the cleanup has set
  \<^verbatim>\<open>cancelled\<close> a settling fetch, fulfilled or rejected, leaves the state as it is.
\<close>

lemma conn_load_rejected:
  "conn_load_settled toNumber dateParse (Rejected err) conn_mounted =
     \<lparr>movies_state = [], phaseRanges_state = [], cancelled = False,
      console_errors = [err], unhandled_rejections = []\<rparr>"
  by (simp add: conn_load_settled_def conn_mounted_def)

lemma conn_load_after_cleanup:
  "movies_state (conn_load_settled toNumber dateParse result (conn_cleanup c)) = movies_state c \<and>
   phaseRanges_state (conn_load_settled toNumber dateParse result (conn_cleanup c)) = phaseRanges_state c"
  by (cases result) (simp_all add: conn_load_settled_def conn_cleanup_def Let_def)

text \<open>
  C5 holds for McuConnections and fails for RevenueBarChart. \<^verbatim>\<open>loadData()\<close> is called with
  no \<^verbatim>\<open>catch\<close>: when the fetch is rejected nothing is logged by the component, the state
  is not reset (it keeps its initial empty list) and the rejection goes unhandled, to the
  global handler.
\<close>

theorem revenue_loadData_rejected:
  "revenue_loadData_settled toNumber (Rejected err) revenue_mounted =
     \<lparr>revenue_state = [], torn_down = False, revenue_console_errors = [],
      revenue_unhandled_rejections = [err]\<rparr>"
  by (simp add: revenue_loadData_settled_def revenue_mounted_def)

text \<open>
  C8 holds for McuConnections and fails for RevenueBarChart, which has no cancellation
  flag and no cleanup: a fetch that is fulfilled after the teardown still calls
  \<^verbatim>\<open>setMovies\<close> with the parsed rows.
\<close>

theorem revenue_loadData_after_teardown:
  "revenue_state (revenue_teardown revenue_mounted) = [] \<and>
   revenue_state (revenue_loadData_settled sample_toNumber (Fulfilled [sample_revenue_row])
                    (revenue_teardown revenue_mounted)) =
     [\<lparr>rev_id = Some ''1726'', rev_title = Some ''Iron Man'', rev_releaseYear = Some 2008,
       rev_isMarvel = Some ''true'', rev_budget = Some 1, rev_revenue = Some 2\<rparr>]"
  by code_simp

end
